theory Spec2Isabelle
  imports Main "HOL-Library.AList"
begin

section \<open>The operation model of \<open>server/core/collaboration.py\<close>\<close>

text \<open>
  The collaboration engine edits plain text. A Python \<open>str\<close> is a \<open>string\<close>, a Python
  \<open>int\<close> an \<open>int\<close>, an \<open>Optional\<close> field an \<open>option\<close>, a \<open>datetime\<close> an \<open>int\<close> (a point
  in time, in seconds).
\<close>

datatype OperationType = INSERT | DELETE | RETAIN | ATTRIBUTES

datatype PresenceStatus = ONLINE | AWAY | BUSY | OFFLINE

text \<open>
  The dataclass \<open>Operation\<close>. The field \<open>length\<close> is \<open>op_length\<close> here, and every field
  carries the prefix \<open>op_\<close>, since several classes of the module share field names.
\<close>

record operation =
  op_type :: OperationType
  op_position :: int
  op_content :: "string option"
  op_length :: "int option"
  op_attributes :: "(string \<times> string) list option"
  op_timestamp :: int
  op_user_id :: string
  op_operation_id :: string

subsection \<open>Python expressions\<close>

text \<open>\<open>len(s)\<close> as a Python integer.\<close>

definition len :: "'a list \<Rightarrow> int" where
  "len s = int (length s)"

text \<open>
  The slices \<open>s[:i]\<close> and \<open>s[i:]\<close>. A negative index counts from the end of the string
  and is clamped at its start; an index past the end is clamped to the end.
\<close>

definition slice_to :: "'a list \<Rightarrow> int \<Rightarrow> 'a list" where
  "slice_to s i = (if i < 0 then take (nat (len s + i)) s else take (nat i) s)"

definition slice_from :: "'a list \<Rightarrow> int \<Rightarrow> 'a list" where
  "slice_from s i = (if i < 0 then drop (nat (len s + i)) s else drop (nat i) s)"

text \<open>\<open>content or ""\<close> and \<open>length or 0\<close>: \<open>None\<close> (and the falsy value itself) give the default.\<close>

definition or_empty :: "string option \<Rightarrow> string" where
  "or_empty c = (case c of None \<Rightarrow> [] | Some s \<Rightarrow> s)"

definition or_zero :: "int option \<Rightarrow> int" where
  "or_zero l = (case l of None \<Rightarrow> 0 | Some n \<Rightarrow> n)"

subsection \<open>Operation objects\<close>

text \<open>
  Python passes \<open>Operation\<close> objects by reference, and the functions below return either an
  object they were given or a newly constructed one. The objects live in a store, a list
  indexed by reference; constructing an object appends it. \<open>uuid.uuid4()\<close> is a source of
  identifiers outside the program: each call takes the next one of a sequence.
\<close>

type_synonym ref = nat

type_synonym uuid_source = "nat \<Rightarrow> string"

record py_state =
  objs :: "operation list"
  uuids :: uuid_source

definition uuid4 :: "uuid_source \<Rightarrow> string \<times> uuid_source" where
  "uuid4 src = (src 0, \<lambda>n. src (Suc n))"

text \<open>
  The constructor call \<open>Operation(type=, position=, content=, length=, timestamp=,
  user_id=)\<close>: \<open>attributes\<close> takes its default \<open>None\<close> and \<open>operation_id\<close> its default
  factory, \<open>str(uuid.uuid4())\<close>.
\<close>

definition new_Operation ::
  "py_state \<Rightarrow> OperationType \<Rightarrow> int \<Rightarrow> string option \<Rightarrow> int option \<Rightarrow> int \<Rightarrow> string
    \<Rightarrow> py_state \<times> ref" where
  "new_Operation w ty pos c l ts uid =
     (let (oid, src') = uuid4 (uuids w) in
      (w\<lparr>objs := objs w @
           [\<lparr>op_type = ty, op_position = pos, op_content = c, op_length = l,
             op_attributes = None, op_timestamp = ts, op_user_id = uid,
             op_operation_id = oid\<rparr>],
         uuids := src'\<rparr>,
       length (objs w)))"

section \<open>OperationalTransform\<close>

text \<open>\<open>OperationalTransform._handle_overlapping_deletes\<close>.\<close>

definition handle_overlapping_deletes :: "py_state \<Rightarrow> ref \<Rightarrow> ref \<Rightarrow> py_state \<times> ref \<times> ref" where
  "handle_overlapping_deletes w op1 op2 =
     (let o1 = objs w ! op1; o2 = objs w ! op2;
          start1 = op_position o1; end1 = op_position o1 + or_zero (op_length o1);
          start2 = op_position o2; end2 = op_position o2 + or_zero (op_length o2);
          union_start = min start1 start2;
          union_end = max end1 end2;
          (w1, op1_prime) = new_Operation w DELETE union_start None
             (Some (union_end - union_start)) (op_timestamp o1) (op_user_id o1);
          (w2, op2_prime) = new_Operation w1 RETAIN 0 None (Some 0)
             (op_timestamp o2) (op_user_id o2)
      in (w2, op1_prime, op2_prime))"

text \<open>
  \<open>OperationalTransform.transform_operation\<close>. The branch for a delete against an insert
  calls the function with the operands swapped, which lands in the insert-against-delete
  branch.
\<close>

function transform_operation :: "py_state \<Rightarrow> ref \<Rightarrow> ref \<Rightarrow> py_state \<times> ref \<times> ref" where
  "transform_operation w op1 op2 =
     (let o1 = objs w ! op1; o2 = objs w ! op2 in
      if op_type o1 = INSERT \<and> op_type o2 = INSERT then
        (if op_position o1 \<le> op_position o2 then
           (let (w', op2_prime) = new_Operation w (op_type o2)
                  (op_position o2 + len (or_empty (op_content o1)))
                  (op_content o2) None (op_timestamp o2) (op_user_id o2)
            in (w', op1, op2_prime))
         else
           (let (w', op1_prime) = new_Operation w (op_type o1)
                  (op_position o1 + len (or_empty (op_content o2)))
                  (op_content o1) None (op_timestamp o1) (op_user_id o1)
            in (w', op1_prime, op2)))
      else if op_type o1 = DELETE \<and> op_type o2 = DELETE then
        (if op_position o1 + or_zero (op_length o1) \<le> op_position o2 then
           (let (w', op2_prime) = new_Operation w (op_type o2)
                  (op_position o2 - or_zero (op_length o1))
                  None (op_length o2) (op_timestamp o2) (op_user_id o2)
            in (w', op1, op2_prime))
         else if op_position o2 + or_zero (op_length o2) \<le> op_position o1 then
           (let (w', op1_prime) = new_Operation w (op_type o1)
                  (op_position o1 - or_zero (op_length o2))
                  None (op_length o1) (op_timestamp o1) (op_user_id o1)
            in (w', op1_prime, op2))
         else handle_overlapping_deletes w op1 op2)
      else if op_type o1 = INSERT \<and> op_type o2 = DELETE then
        (if op_position o1 \<le> op_position o2 then
           (let (w', op2_prime) = new_Operation w (op_type o2)
                  (op_position o2 + len (or_empty (op_content o1)))
                  None (op_length o2) (op_timestamp o2) (op_user_id o2)
            in (w', op1, op2_prime))
         else if op_position o1 \<ge> op_position o2 + or_zero (op_length o2) then
           (let (w', op1_prime) = new_Operation w (op_type o1)
                  (op_position o1 - or_zero (op_length o2))
                  (op_content o1) None (op_timestamp o1) (op_user_id o1)
            in (w', op1_prime, op2))
         else
           (let (w1, op1_prime) = new_Operation w (op_type o1)
                  (op_position o2)
                  (op_content o1) None (op_timestamp o1) (op_user_id o1);
                (w2, op2_prime) = new_Operation w1 (op_type o2)
                  (op_position o2)
                  None (Some (or_zero (op_length o2) + len (or_empty (op_content o1))))
                  (op_timestamp o2) (op_user_id o2)
            in (w2, op1_prime, op2_prime)))
      else if op_type o1 = DELETE \<and> op_type o2 = INSERT then
        (let (w', op2_prime, op1_prime) = transform_operation w op2 op1
         in (w', op1_prime, op2_prime))
      else (w, op1, op2))"
  by pat_completeness auto
termination
  by (relation "measure (\<lambda>(w, op1, op2).
        if op_type (objs w ! op1) = DELETE \<and> op_type (objs w ! op2) = INSERT then 1 else 0)")
     auto

declare transform_operation.simps [simp del]

text \<open>\<open>OperationalTransform.apply_operation\<close>.\<close>

definition apply_operation :: "string \<Rightarrow> operation \<Rightarrow> string" where
  "apply_operation content operation =
     (if op_type operation = INSERT then
        (let pos = min (op_position operation) (len content)
         in slice_to content pos @ or_empty (op_content operation) @ slice_from content pos)
      else if op_type operation = DELETE then
        (let start = min (op_position operation) (len content);
             end' = min (start + or_zero (op_length operation)) (len content)
         in slice_to content start @ slice_from content end')
      else if op_type operation = RETAIN then content
      else content)"

section \<open>The engine state\<close>

text \<open>The dataclasses \<open>UserPresence\<close>, \<open>DocumentState\<close> and \<open>WorkspaceState\<close>.\<close>

record user_presence =
  up_user_id :: string
  up_username :: string
  up_status :: PresenceStatus
  up_cursor_position :: int
  up_selection_start :: int
  up_selection_end :: int
  up_last_seen :: int
  up_avatar_color :: string
  up_current_document :: "string option"
  up_active :: bool

text \<open>
  A Python \<open>dict\<close> is an association list in insertion order: \<open>map_of\<close> looks a key up,
  \<open>AList.update\<close> assigns (in place for a key that is there, at the end for a new one),
  \<open>AList.delete\<close> deletes. \<open>operations\<close> is a \<open>deque(maxlen=1000)\<close> and
  \<open>pending_operations\<close> a list, both of references to \<open>Operation\<close> objects.
\<close>

record document_state =
  doc_document_id :: string
  doc_content :: string
  doc_version :: int
  doc_operations :: "ref list"
  doc_active_users :: "(string \<times> user_presence) list"
  doc_pending_operations :: "ref list"
  doc_last_modified :: int
  doc_conflict_resolution_needed :: bool

record workspace_state =
  ws_workspace_id :: string
  ws_name :: string
  ws_active_users :: "(string \<times> user_presence) list"
  ws_documents :: "(string \<times> document_state) list"
  ws_permissions :: "(string \<times> string list) list"
  ws_created_at :: int
  ws_last_activity :: int

text \<open>
  \<open>WebSocketConnection\<close>. Of the user only \<open>user.id\<close> and \<open>user.username\<close> are read. The
  websocket itself is outside the program: \<open>conn_websocket_open\<close> says whether its
  \<open>send_text\<close> and \<open>ping\<close> succeed (they raise otherwise).
\<close>

record websocket_connection =
  conn_websocket_open :: bool
  conn_user_id :: string
  conn_username :: string
  conn_workspace_id :: string
  conn_connected_at :: int
  conn_last_ping :: int
  conn_is_active :: bool

text \<open>The messages the engine sends (the dictionaries passed to \<open>send_json\<close>).\<close>

datatype out_message =
    Initial_state string string "(string \<times> string \<times> PresenceStatus \<times> string \<times> int) list" "string list"
  | Operation_message string OperationType int "string option" "int option" string int
  | Cursor_update string "string option" int int int
  | User_joined string string string
  | User_left string
  | Pong int
  | Note_created string string
  | Note_updated string string
  | General_update string string

datatype log_entry = Info string | Warning string | Error string

datatype py_error = KeyError | ValueError | AttributeError

text \<open>
  \<open>CollaborationEngine\<close>. \<open>connections\<close> maps a connection id to a connection object;
  the objects live in \<open>conn_objs\<close>, indexed by reference, since a handler keeps its
  connection object also after the id has left the registry. \<open>user_connections\<close> and
  \<open>workspace_connections\<close> are \<open>defaultdict(list)\<close>: a key that was never assigned reads as
  the empty list. \<open>sent\<close> records every call of \<open>websocket.send_text\<close>, with the connection
  object it was made on, in order; \<open>log_entries\<close> the calls of the logger. \<open>str_hash\<close> is
  Python's \<open>hash\<close> on strings, fixed for one process.
\<close>

record engine =
  connections :: "(string \<times> ref) list"
  conn_objs :: "websocket_connection list"
  user_connections :: "string \<Rightarrow> string list"
  workspace_connections :: "string \<Rightarrow> string list"
  workspaces :: "(string \<times> workspace_state) list"
  stat_total_connections :: int
  stat_active_workspaces :: int
  stat_operations_processed :: int
  stat_conflicts_resolved :: int
  stat_messages_sent :: int
  py :: py_state
  str_hash :: "string \<Rightarrow> int"
  sent :: "(ref \<times> out_message) list"
  log_entries :: "log_entry list"

text \<open>The decoded JSON object of an inbound message; \<open>None\<close> is a key that is absent.\<close>

record operation_data =
  od_type :: "string option"
  od_position :: "int option"
  od_content :: "string option"
  od_length :: "int option"

record message_data =
  md_type :: "string option"
  md_operation :: "operation_data option"
  md_document_id :: "string option"
  md_position :: "int option"
  md_selection_start :: "int option"
  md_selection_end :: "int option"
  md_status :: "string option"

datatype inbound = Invalid_json | Json_not_an_object | Json message_data

section \<open>WebSocketConnection\<close>

text \<open>\<open>WebSocketConnection.send_json\<close>: a failed send is logged and marks the connection
  inactive.\<close>

definition send_json :: "engine \<Rightarrow> ref \<Rightarrow> out_message \<Rightarrow> engine" where
  "send_json s connection data =
     (let s1 = s\<lparr>sent := sent s @ [(connection, data)]\<rparr> in
      if conn_websocket_open (conn_objs s ! connection) then s1
      else s1\<lparr>conn_objs := (conn_objs s)[connection :=
                  (conn_objs s ! connection)\<lparr>conn_is_active := False\<rparr>],
              log_entries := log_entries s @ [Warning ''Failed to send WebSocket message'']\<rparr>)"

text \<open>\<open>WebSocketConnection.ping\<close>.\<close>

definition ping :: "engine \<Rightarrow> int \<Rightarrow> ref \<Rightarrow> engine" where
  "ping s now connection =
     (if conn_websocket_open (conn_objs s ! connection) then
        s\<lparr>conn_objs := (conn_objs s)[connection :=
             (conn_objs s ! connection)\<lparr>conn_last_ping := now\<rparr>]\<rparr>
      else
        s\<lparr>conn_objs := (conn_objs s)[connection :=
             (conn_objs s ! connection)\<lparr>conn_is_active := False\<rparr>],
          log_entries := log_entries s @ [Warning ''WebSocket ping failed'']\<rparr>)"

section \<open>CollaborationEngine\<close>

text \<open>\<open>__init__\<close>.\<close>

definition init_engine :: "uuid_source \<Rightarrow> (string \<Rightarrow> int) \<Rightarrow> engine" where
  "init_engine src h =
     \<lparr>connections = [], conn_objs = [], user_connections = (\<lambda>_. []),
      workspace_connections = (\<lambda>_. []), workspaces = [],
      stat_total_connections = 0, stat_active_workspaces = 0, stat_operations_processed = 0,
      stat_conflicts_resolved = 0, stat_messages_sent = 0,
      py = \<lparr>objs = [], uuids = src\<rparr>, str_hash = h, sent = [], log_entries = []\<rparr>"

text \<open>\<open>_broadcast_to_workspace\<close>. \<open>exclude_user\<close> excludes only when it is truthy.\<close>

definition broadcast_to_workspace ::
  "engine \<Rightarrow> string \<Rightarrow> out_message \<Rightarrow> string option \<Rightarrow> engine" where
  "broadcast_to_workspace s workspace_id message exclude_user =
     fold (\<lambda>conn_id s.
        case map_of (connections s) conn_id of
          None \<Rightarrow> s
        | Some connection \<Rightarrow>
            if conn_is_active (conn_objs s ! connection) then
              (if exclude_user \<noteq> None \<and> exclude_user \<noteq> Some []
                  \<and> Some (conn_user_id (conn_objs s ! connection)) = exclude_user
               then s
               else (let s1 = send_json s connection message
                     in s1\<lparr>stat_messages_sent := stat_messages_sent s1 + 1\<rparr>))
            else s)
       (workspace_connections s workspace_id) s"

text \<open>\<open>_generate_avatar_color\<close>.\<close>

definition colors :: "string list" where
  "colors = [''#EF4444'', ''#F97316'', ''#F59E0B'', ''#EAB308'',
             ''#84CC16'', ''#22C55E'', ''#10B981'', ''#14B8A6'',
             ''#06B6D4'', ''#0EA5E9'', ''#3B82F6'', ''#6366F1'',
             ''#8B5CF6'', ''#A855F7'', ''#D946EF'', ''#EC4899'']"

definition generate_avatar_color :: "engine \<Rightarrow> string \<Rightarrow> string" where
  "generate_avatar_color s user_id = colors ! nat (str_hash s user_id mod len colors)"

text \<open>\<open>_initialize_workspace\<close>.\<close>

definition initialize_workspace :: "engine \<Rightarrow> int \<Rightarrow> string \<Rightarrow> engine" where
  "initialize_workspace s now workspace_id =
     (let workspace = \<lparr>ws_workspace_id = workspace_id,
                        ws_name = ''Workspace '' @ slice_to workspace_id 8,
                        ws_active_users = [], ws_documents = [], ws_permissions = [],
                        ws_created_at = now, ws_last_activity = now\<rparr>
      in s\<lparr>workspaces := AList.update workspace_id workspace (workspaces s),
           stat_active_workspaces := stat_active_workspaces s + 1,
           log_entries := log_entries s @ [Info ''Initialized workspace'']\<rparr>)"

text \<open>\<open>_add_user_to_workspace\<close>; \<open>self.workspaces[workspace_id]\<close> raises for a workspace that
  is absent.\<close>

definition add_user_to_workspace ::
  "engine \<Rightarrow> int \<Rightarrow> string \<Rightarrow> string \<Rightarrow> string \<Rightarrow> py_error + engine" where
  "add_user_to_workspace s now workspace_id user_id username =
     (case map_of (workspaces s) workspace_id of
        None \<Rightarrow> Inl KeyError
      | Some workspace \<Rightarrow>
          (let presence = \<lparr>up_user_id = user_id, up_username = username, up_status = ONLINE,
                             up_cursor_position = 0, up_selection_start = 0,
                             up_selection_end = 0, up_last_seen = now,
                             up_avatar_color = generate_avatar_color s user_id,
                             up_current_document = None, up_active = True\<rparr>
           in Inr (s\<lparr>workspaces := AList.update workspace_id
                    (workspace\<lparr>ws_active_users :=
                         AList.update user_id presence (ws_active_users workspace),
                       ws_last_activity := now\<rparr>)
                    (workspaces s)\<rparr>)))"

text \<open>\<open>_send_initial_state\<close>: the snapshot, and the call that sends it.\<close>

definition initial_state :: "workspace_state \<Rightarrow> out_message" where
  "initial_state workspace =
     Initial_state (ws_workspace_id workspace) (ws_name workspace)
       (map (\<lambda>presence. (up_user_id presence, up_username presence, up_status presence,
                          up_avatar_color presence, up_cursor_position presence))
            (map snd (ws_active_users workspace)))
       (map fst (ws_documents workspace))"

definition send_initial_state :: "engine \<Rightarrow> ref \<Rightarrow> string \<Rightarrow> py_error + engine" where
  "send_initial_state s connection workspace_id =
     (case map_of (workspaces s) workspace_id of
        None \<Rightarrow> Inl KeyError
      | Some workspace \<Rightarrow> Inr (send_json s connection (initial_state workspace)))"

text \<open>\<open>_broadcast_user_joined\<close>.\<close>

definition broadcast_user_joined :: "engine \<Rightarrow> string \<Rightarrow> string \<Rightarrow> string \<Rightarrow> engine" where
  "broadcast_user_joined s workspace_id user_id username =
     broadcast_to_workspace s workspace_id
       (User_joined user_id username (generate_avatar_color s user_id)) (Some user_id)"

text \<open>\<open>_cleanup_connection\<close>; \<open>list.remove\<close> removes the first occurrence.\<close>

definition cleanup_connection :: "engine \<Rightarrow> string \<Rightarrow> engine" where
  "cleanup_connection s connection_id =
     (case map_of (connections s) connection_id of
        None \<Rightarrow> s
      | Some connection \<Rightarrow>
      (let user_id = conn_user_id (conn_objs s ! connection);
           workspace_id = conn_workspace_id (conn_objs s ! connection);
           s1 = s\<lparr>connections := AList.delete connection_id (connections s)\<rparr>;
           s2 = (if connection_id \<in> set (user_connections s1 user_id)
                 then s1\<lparr>user_connections := (user_connections s1)
                          (user_id := remove1 connection_id (user_connections s1 user_id))\<rparr>
                 else s1);
           s3 = (if connection_id \<in> set (workspace_connections s2 workspace_id)
                 then s2\<lparr>workspace_connections := (workspace_connections s2)
                          (workspace_id :=
                             remove1 connection_id (workspace_connections s2 workspace_id))\<rparr>
                 else s2);
           s4 = (if user_connections s3 user_id = [] then
                   (case map_of (workspaces s3) workspace_id of
                      None \<Rightarrow> s3
                    | Some workspace \<Rightarrow>
                        if map_of (ws_active_users workspace) user_id \<noteq> None then
                          broadcast_to_workspace
                            (s3\<lparr>workspaces := AList.update workspace_id
                                  (workspace\<lparr>ws_active_users :=
                                     AList.delete user_id (ws_active_users workspace)\<rparr>)
                                  (workspaces s3)\<rparr>)
                            workspace_id (User_left user_id) None
                        else s3)
                 else s3)
       in s4\<lparr>log_entries := log_entries s4 @ [Info ''Connection cleaned up'']\<rparr>))"

text \<open>
  The connecting part of \<open>handle_websocket\<close>, up to the message loop, for a websocket
  whose \<open>accept\<close> succeeded. First the connection is made and registered
  (\<open>register_connection\<close>): \<open>_authenticate_websocket_user\<close> makes a user named \<open>testuser\<close>
  with a new UUID as id, and the connection id is the next UUID. Then the workspace is
  initialised if it is new, the user added, the snapshot sent and the others notified. An
  exception ends the handler: its \<open>except\<close> clause logs it and its \<open>finally\<close> clause cleans
  the connection up.
\<close>

definition register_connection ::
  "engine \<Rightarrow> int \<Rightarrow> string \<Rightarrow> bool \<Rightarrow> engine \<times> string \<times> string \<times> ref" where
  "register_connection s now workspace_id websocket_open =
     (let (user_id, src1) = uuid4 (uuids (py s));
          (connection_id, src2) = uuid4 src1;
          connection = length (conn_objs s)
      in (s\<lparr>py := (py s)\<lparr>uuids := src2\<rparr>,
            conn_objs := conn_objs s @
              [\<lparr>conn_websocket_open = websocket_open, conn_user_id = user_id,
                conn_username = ''testuser'', conn_workspace_id = workspace_id,
                conn_connected_at = now, conn_last_ping = now,
                conn_is_active = True\<rparr>],
            connections := AList.update connection_id connection (connections s),
            user_connections := (user_connections s)
              (user_id := user_connections s user_id @ [connection_id]),
            workspace_connections := (workspace_connections s)
              (workspace_id := workspace_connections s workspace_id @ [connection_id])\<rparr>,
          user_id, connection_id, connection))"

definition handle_websocket_connect :: "engine \<Rightarrow> int \<Rightarrow> string \<Rightarrow> bool \<Rightarrow> engine" where
  "handle_websocket_connect s now workspace_id websocket_open =
     (let (s1, user_id, connection_id, connection) =
            register_connection s now workspace_id websocket_open;
          username = ''testuser'';
          s2 = (if map_of (workspaces s1) workspace_id = None
                then initialize_workspace s1 now workspace_id else s1)
      in case add_user_to_workspace s2 now workspace_id user_id username of
           Inl e \<Rightarrow> cleanup_connection
                      (s2\<lparr>log_entries := log_entries s2 @ [Error ''WebSocket error'']\<rparr>)
                      connection_id
         | Inr s3 \<Rightarrow>
             (case send_initial_state s3 connection workspace_id of
                Inl e \<Rightarrow> cleanup_connection
                           (s3\<lparr>log_entries := log_entries s3 @ [Error ''WebSocket error'']\<rparr>)
                           connection_id
              | Inr s4 \<Rightarrow>
                  (let s5 = broadcast_user_joined s4 workspace_id user_id username
                   in s5\<lparr>stat_total_connections := stat_total_connections s5 + 1,
                         log_entries := log_entries s5 @
                           [Info ''User connected to workspace'']\<rparr>)))"

text \<open>\<open>OperationType(value)\<close>: the member with that value; \<open>ValueError\<close> when there is none.\<close>

definition OperationType_of :: "string \<Rightarrow> OperationType option" where
  "OperationType_of v =
     (if v = ''insert'' then Some INSERT
      else if v = ''delete'' then Some DELETE
      else if v = ''retain'' then Some RETAIN
      else if v = ''attributes'' then Some ATTRIBUTES
      else None)"

text \<open>
  \<open>_apply_operational_transformation\<close>. The loop keeps the first component of each
  \<open>transform_operation\<close> result; \<open>pending[-10:]\<close> keeps the last ten entries.
\<close>

definition apply_operational_transformation ::
  "py_state \<Rightarrow> document_state \<Rightarrow> ref \<Rightarrow> py_state \<times> document_state \<times> ref" where
  "apply_operational_transformation w document operation =
     (let (w', transformed_op) =
            fold (\<lambda>pending_op (w, transformed_op).
                    if op_user_id (objs w ! pending_op) \<noteq> op_user_id (objs w ! operation) then
                      (let (w', t, _) = transform_operation w transformed_op pending_op
                       in (w', t))
                    else (w, transformed_op))
                 (doc_pending_operations document) (w, operation);
          pending = doc_pending_operations document @ [transformed_op];
          pending' = (if length pending > 10 then drop (length pending - 10) pending
                      else pending)
      in (w', document\<lparr>doc_pending_operations := pending'\<rparr>, transformed_op))"

text \<open>\<open>deque.append\<close> on a deque with \<open>maxlen=1000\<close>: a full deque drops its oldest entry.\<close>

definition deque_append :: "'a list \<Rightarrow> 'a \<Rightarrow> 'a list" where
  "deque_append d x =
     (let d' = d @ [x] in if length d' > 1000 then drop (length d' - 1000) d' else d')"

text \<open>\<open>_broadcast_operation\<close>.\<close>

definition broadcast_operation ::
  "engine \<Rightarrow> string \<Rightarrow> string \<Rightarrow> ref \<Rightarrow> string option \<Rightarrow> engine" where
  "broadcast_operation s workspace_id document_id operation exclude_user =
     (let operation' = objs (py s) ! operation;
          message = Operation_message document_id (op_type operation') (op_position operation')
                      (op_content operation') (op_length operation') (op_user_id operation')
                      (op_timestamp operation')
      in broadcast_to_workspace s workspace_id message exclude_user)"

text \<open>The constructor call \<open>DocumentState(document_id=, content="", version=0)\<close>, made at
  the time \<open>now\<close>; the other fields take their defaults.\<close>

definition new_DocumentState :: "string \<Rightarrow> int \<Rightarrow> document_state" where
  "new_DocumentState document_id now =
     \<lparr>doc_document_id = document_id, doc_content = [], doc_version = 0,
      doc_operations = [], doc_active_users = [], doc_pending_operations = [],
      doc_last_modified = now, doc_conflict_resolution_needed = False\<rparr>"

text \<open>
  The body of the \<open>try\<close> block of \<open>_handle_operation\<close>: the result is the new state, or an
  exception with the state in which it was raised. The arguments of \<open>Operation(...)\<close> are
  evaluated before the object is made, so a key that is missing and a value that is not an
  operation type raise before anything is changed. \<open>_save_document_state\<close> does nothing.
\<close>

definition handle_operation_try ::
  "engine \<Rightarrow> int \<Rightarrow> ref \<Rightarrow> message_data \<Rightarrow> (py_error \<times> engine) + engine" where
  "handle_operation_try s now connection data =
     (let conn = conn_objs s ! connection in
      case md_operation data of
        None \<Rightarrow> Inl (KeyError, s)
      | Some od \<Rightarrow>
      (case od_type od of
        None \<Rightarrow> Inl (KeyError, s)
      | Some type_value \<Rightarrow>
      (case OperationType_of type_value of
        None \<Rightarrow> Inl (ValueError, s)
      | Some ty \<Rightarrow>
      (case od_position od of
        None \<Rightarrow> Inl (KeyError, s)
      | Some pos \<Rightarrow>
      (let (w1, operation) = new_Operation (py s) ty pos (od_content od) (od_length od) now
                               (conn_user_id conn);
           s1 = s\<lparr>py := w1\<rparr>
       in
       if md_document_id data = None \<or> md_document_id data = Some [] then
         Inr (s1\<lparr>log_entries := log_entries s1 @ [Warning ''Operation without document_id'']\<rparr>)
       else
      (let document_id = or_empty (md_document_id data) in
       case map_of (workspaces s1) (conn_workspace_id conn) of
         None \<Rightarrow> Inl (KeyError, s1)
       | Some workspace \<Rightarrow>
       (let document =
              (case map_of (ws_documents workspace) document_id of
                 None \<Rightarrow> new_DocumentState document_id now
               | Some d \<Rightarrow> d);
            (w2, document1, transformed_operation) =
              apply_operational_transformation w1 document operation;
            document2 = document1
              \<lparr>doc_content := apply_operation (doc_content document1)
                                 (objs w2 ! transformed_operation),
               doc_version := doc_version document1 + 1,
               doc_operations := deque_append (doc_operations document1) transformed_operation,
               doc_last_modified := now\<rparr>;
            s2 = s1\<lparr>py := w2,
                    workspaces := AList.update (conn_workspace_id conn)
                      (workspace\<lparr>ws_documents :=
                          AList.update document_id document2 (ws_documents workspace)\<rparr>)
                      (workspaces s1)\<rparr>;
            s3 = broadcast_operation s2 (conn_workspace_id conn) document_id
                   transformed_operation (Some (conn_user_id conn))
        in Inr (s3\<lparr>stat_operations_processed := stat_operations_processed s3 + 1\<rparr>))))))))"

text \<open>\<open>_handle_operation\<close>: the \<open>except\<close> clause logs the exception.\<close>

definition handle_operation :: "engine \<Rightarrow> int \<Rightarrow> ref \<Rightarrow> message_data \<Rightarrow> engine" where
  "handle_operation s now connection data =
     (case handle_operation_try s now connection data of
        Inl (e, s') \<Rightarrow> s'\<lparr>log_entries := log_entries s' @ [Error ''Error handling operation'']\<rparr>
      | Inr s' \<Rightarrow> s')"

text \<open>\<open>_handle_cursor_move\<close>; \<open>data.get(key, 0)\<close> is 0 for a key that is absent.\<close>

definition get_or :: "'a option \<Rightarrow> 'a \<Rightarrow> 'a" where
  "get_or v d = (case v of None \<Rightarrow> d | Some x \<Rightarrow> x)"

definition handle_cursor_move ::
  "engine \<Rightarrow> int \<Rightarrow> ref \<Rightarrow> message_data \<Rightarrow> (py_error \<times> engine) + engine" where
  "handle_cursor_move s now connection data =
     (let conn = conn_objs s ! connection in
      case map_of (workspaces s) (conn_workspace_id conn) of
        None \<Rightarrow> Inl (KeyError, s)
      | Some workspace \<Rightarrow>
      (case map_of (ws_active_users workspace) (conn_user_id conn) of
         None \<Rightarrow> Inr s
       | Some user_presence \<Rightarrow>
       (let user_presence' = user_presence
              \<lparr>up_cursor_position := get_or (md_position data) 0,
               up_selection_start := get_or (md_selection_start data) 0,
               up_selection_end := get_or (md_selection_end data) 0,
               up_last_seen := now\<rparr>;
            s1 = s\<lparr>workspaces := AList.update (conn_workspace_id conn)
                     (workspace\<lparr>ws_active_users :=
                        AList.update (conn_user_id conn) user_presence'
                          (ws_active_users workspace)\<rparr>)
                     (workspaces s)\<rparr>;
            cursor_message = Cursor_update (conn_user_id conn) (md_document_id data)
                               (up_cursor_position user_presence')
                               (up_selection_start user_presence')
                               (up_selection_end user_presence')
        in Inr (broadcast_to_workspace s1 (conn_workspace_id conn) cursor_message
                  (Some (conn_user_id conn))))))"

text \<open>
  \<open>_handle_collaboration_message\<close>. The class defines no \<open>_handle_document_open\<close>,
  \<open>_handle_document_close\<close> or \<open>_handle_presence_update\<close>: looking the method up raises
  \<open>AttributeError\<close>.
\<close>

definition handle_collaboration_message ::
  "engine \<Rightarrow> int \<Rightarrow> ref \<Rightarrow> message_data \<Rightarrow> (py_error \<times> engine) + engine" where
  "handle_collaboration_message s now connection data =
     (let message_type = md_type data in
      if message_type = Some ''operation'' then Inr (handle_operation s now connection data)
      else if message_type = Some ''cursor_move'' then handle_cursor_move s now connection data
      else if message_type = Some ''document_open'' then Inl (AttributeError, s)
      else if message_type = Some ''document_close'' then Inl (AttributeError, s)
      else if message_type = Some ''presence_update'' then Inl (AttributeError, s)
      else if message_type = Some ''ping'' then Inr (send_json s connection (Pong now))
      else Inr (s\<lparr>log_entries := log_entries s @ [Warning ''Unknown message type'']\<rparr>))"

text \<open>
  One round of the message loop of \<open>handle_websocket\<close>: \<open>json.loads\<close>, the dispatch, and
  the two \<open>except\<close> clauses. On a JSON value that is no object, \<open>data.get\<close> raises.
\<close>

definition handle_text :: "engine \<Rightarrow> int \<Rightarrow> ref \<Rightarrow> inbound \<Rightarrow> engine" where
  "handle_text s now connection message =
     (case message of
        Invalid_json \<Rightarrow> s\<lparr>log_entries := log_entries s @ [Warning ''Invalid JSON received'']\<rparr>
      | Json_not_an_object \<Rightarrow>
          s\<lparr>log_entries := log_entries s @ [Error ''Error handling message'']\<rparr>
      | Json data \<Rightarrow>
          (case handle_collaboration_message s now connection data of
             Inl (e, s') \<Rightarrow> s'\<lparr>log_entries := log_entries s' @ [Error ''Error handling message'']\<rparr>
           | Inr s' \<Rightarrow> s'))"

subsection \<open>Background tasks\<close>

text \<open>One round of \<open>_heartbeat_monitor\<close>: every active registered connection is pinged.\<close>

definition heartbeat_round :: "engine \<Rightarrow> int \<Rightarrow> engine" where
  "heartbeat_round s now =
     fold (\<lambda>connection s. if conn_is_active (conn_objs s ! connection)
                            then ping s now connection else s)
          (map snd (connections s)) s"

text \<open>One round of \<open>_cleanup_inactive_connections\<close>: connections without a ping for more
  than five minutes are cleaned up.\<close>

definition cleanup_inactive_round :: "engine \<Rightarrow> int \<Rightarrow> engine" where
  "cleanup_inactive_round s current_time =
     (let inactive_connections =
            map fst (filter (\<lambda>(conn_id, connection).
                       current_time - conn_last_ping (conn_objs s ! connection) > 300)
                     (connections s))
      in fold (\<lambda>conn_id s. cleanup_connection s conn_id) inactive_connections s)"

text \<open>One round of \<open>_sync_workspace_states\<close>: \<open>_save_workspace_state\<close> does nothing.\<close>

definition sync_round :: "engine \<Rightarrow> engine" where
  "sync_round s = fold (\<lambda>workspace s. s) (map snd (workspaces s)) s"

subsection \<open>Public broadcasts\<close>

text \<open>\<open>broadcast_note_created\<close>, \<open>broadcast_note_updated\<close> and \<open>broadcast_update\<close>: a message
  to every workspace in which the user is active.\<close>

definition broadcast_public :: "engine \<Rightarrow> string \<Rightarrow> out_message \<Rightarrow> engine" where
  "broadcast_public s user_id message =
     fold (\<lambda>(workspace_id, _) s.
             case map_of (workspaces s) workspace_id of
               None \<Rightarrow> s
             | Some workspace \<Rightarrow>
                 if map_of (ws_active_users workspace) user_id \<noteq> None
                 then broadcast_to_workspace s workspace_id message (Some user_id)
                 else s)
          (workspaces s) s"

definition broadcast_note_created :: "engine \<Rightarrow> string \<Rightarrow> string \<Rightarrow> engine" where
  "broadcast_note_created s user_id note = broadcast_public s user_id (Note_created note user_id)"

definition broadcast_note_updated :: "engine \<Rightarrow> string \<Rightarrow> string \<Rightarrow> engine" where
  "broadcast_note_updated s user_id note = broadcast_public s user_id (Note_updated note user_id)"

definition broadcast_update :: "engine \<Rightarrow> string \<Rightarrow> string \<Rightarrow> engine" where
  "broadcast_update s user_id update_data =
     broadcast_public s user_id (General_update update_data user_id)"

subsection \<open>The engine as a transition system\<close>

text \<open>
  The events of a running engine, each handled without interruption at a time \<open>now\<close>: a
  websocket connects; a text frame arrives on a connection; a connection's handler ends
  and cleans up; a websocket breaks; a background task makes a round; the application
  broadcasts. (\<open>shutdown\<close>, which discards all state, is not among them.)
\<close>

datatype event =
    Connect string bool
  | Receive ref inbound
  | Disconnect string
  | Websocket_breaks ref
  | Heartbeat
  | Cleanup_inactive
  | Sync
  | Broadcast_note_created string string
  | Broadcast_note_updated string string
  | Broadcast_update string string

fun step :: "engine \<Rightarrow> int \<Rightarrow> event \<Rightarrow> engine" where
  "step s now (Connect workspace_id websocket_open) =
     handle_websocket_connect s now workspace_id websocket_open"
| "step s now (Receive connection message) = handle_text s now connection message"
| "step s now (Disconnect connection_id) = cleanup_connection s connection_id"
| "step s now (Websocket_breaks connection) =
     s\<lparr>conn_objs := (conn_objs s)[connection :=
          (conn_objs s ! connection)\<lparr>conn_websocket_open := False\<rparr>]\<rparr>"
| "step s now Heartbeat = heartbeat_round s now"
| "step s now Cleanup_inactive = cleanup_inactive_round s now"
| "step s now Sync = sync_round s"
| "step s now (Broadcast_note_created user_id note) = broadcast_note_created s user_id note"
| "step s now (Broadcast_note_updated user_id note) = broadcast_note_updated s user_id note"
| "step s now (Broadcast_update user_id update_data) = broadcast_update s user_id update_data"

text \<open>A text frame arrives on a connection object that exists, and only the websocket of
  such an object breaks.\<close>

fun enabled :: "engine \<Rightarrow> event \<Rightarrow> bool" where
  "enabled s (Receive connection message) = (connection < length (conn_objs s))"
| "enabled s (Websocket_breaks connection) = (connection < length (conn_objs s))"
| "enabled s e = True"

text \<open>The states an engine reaches from its initial state.\<close>

inductive reachable :: "engine \<Rightarrow> bool" where
  init: "reachable (init_engine src h)"
| step: "reachable s \<Longrightarrow> enabled s e \<Longrightarrow> reachable (step s now e)"

section \<open>Notions the properties are stated with\<close>

text \<open>
  An insert or delete generated against the content \<open>base\<close>: its position lies in the
  content, and a delete's range has a length that is not negative and ends in the content.
\<close>

definition generated_against :: "string \<Rightarrow> operation \<Rightarrow> bool" where
  "generated_against base operation =
     ((op_type operation = INSERT \<or> op_type operation = DELETE)
      \<and> 0 \<le> op_position operation \<and> op_position operation \<le> len base
      \<and> (op_type operation = DELETE \<longrightarrow>
           0 \<le> or_zero (op_length operation)
           \<and> op_position operation + or_zero (op_length operation) \<le> len base))"

text \<open>Two deletes that \<open>transform_operation\<close> hands to \<open>_handle_overlapping_deletes\<close>.\<close>

definition overlapping_deletes :: "operation \<Rightarrow> operation \<Rightarrow> bool" where
  "overlapping_deletes o1 o2 =
     (op_type o1 = DELETE \<and> op_type o2 = DELETE
      \<and> \<not> op_position o1 + or_zero (op_length o1) \<le> op_position o2
      \<and> \<not> op_position o2 + or_zero (op_length o2) \<le> op_position o1)"

text \<open>An insert of text strictly inside the range of a delete.\<close>

definition insert_inside_delete :: "operation \<Rightarrow> operation \<Rightarrow> bool" where
  "insert_inside_delete i d =
     (op_type i = INSERT \<and> op_type d = DELETE
      \<and> op_position d < op_position i
      \<and> op_position i < op_position d + or_zero (op_length d)
      \<and> or_empty (op_content i) \<noteq> [])"

text \<open>The documents of a workspace; none for a workspace that does not exist.\<close>

definition documents_of :: "engine \<Rightarrow> string \<Rightarrow> (string \<times> document_state) list" where
  "documents_of s workspace_id =
     (case map_of (workspaces s) workspace_id of None \<Rightarrow> [] | Some workspace \<Rightarrow> ws_documents workspace)"

text \<open>
  An operation message that \<open>_handle_operation\<close> rejects before it reads the workspace:
  \<open>operation\<close>, its \<open>type\<close>, its \<open>position\<close> or \<open>document_id\<close> is missing (or \<open>document_id\<close>
  is empty), or \<open>type\<close> is no value of \<open>OperationType\<close>.
\<close>

definition malformed_operation :: "message_data \<Rightarrow> bool" where
  "malformed_operation data =
     (case md_operation data of
        None \<Rightarrow> True
      | Some od \<Rightarrow>
          (case od_type od of None \<Rightarrow> True | Some v \<Rightarrow> OperationType_of v = None)
          \<or> od_position od = None
          \<or> md_document_id data = None \<or> md_document_id data = Some [])"

text \<open>The version of a document; 0, the version a document is created with, for one that
  does not exist yet.\<close>

definition version_at :: "engine \<Rightarrow> string \<Rightarrow> string \<Rightarrow> int" where
  "version_at s workspace_id document_id =
     (case map_of (documents_of s workspace_id) document_id of
        None \<Rightarrow> 0
      | Some document \<Rightarrow> doc_version document)"

text \<open>The workspace and the document to which the operation of an event is applied: the
  event is an operation message that is not rejected, on a connection whose workspace
  exists.\<close>

definition accepted_operation :: "engine \<Rightarrow> event \<Rightarrow> (string \<times> string) option" where
  "accepted_operation s e =
     (case e of
        Receive connection (Json data) \<Rightarrow>
          if md_type data = Some ''operation'' \<and> \<not> malformed_operation data
             \<and> map_of (workspaces s) (conn_workspace_id (conn_objs s ! connection)) \<noteq> None
          then Some (conn_workspace_id (conn_objs s ! connection), or_empty (md_document_id data))
          else None
      | _ \<Rightarrow> None)"

text \<open>Two states with the same documents in every workspace and the same \<open>Operation\<close>
  objects.\<close>

definition same_documents :: "engine \<Rightarrow> engine \<Rightarrow> bool" where
  "same_documents s s' = (documents_of s' = documents_of s \<and> objs (py s') = objs (py s))"

text \<open>The fold of \<open>apply_operation\<close> over the history of a document, in the order of
  application, from the empty string; \<open>os\<close> is the store of \<open>Operation\<close> objects.\<close>

definition replay :: "operation list \<Rightarrow> document_state \<Rightarrow> string" where
  "replay os document =
     foldl (\<lambda>content r. apply_operation content (os ! r)) [] (doc_operations document)"

text \<open>
  What holds of every document of a running engine: its history and its pending list
  refer to objects that exist; the history holds as many operations as were applied, up to
  1000; and while no more than 1000 were applied, the content is the replayed history.
\<close>

definition doc_ok :: "operation list \<Rightarrow> document_state \<Rightarrow> bool" where
  "doc_ok os document =
     ((\<forall>r \<in> set (doc_operations document) \<union> set (doc_pending_operations document).
          r < length os)
      \<and> int (length (doc_operations document)) = min (doc_version document) 1000
      \<and> (doc_version document \<le> 1000 \<longrightarrow> doc_content document = replay os document))"

text \<open>Every document of every workspace is as \<open>doc_ok\<close> says.\<close>

definition all_docs_ok :: "engine \<Rightarrow> bool" where
  "all_docs_ok s =
     (\<forall>w d document. map_of (documents_of s w) d = Some document
        \<longrightarrow> doc_ok (objs (py s)) document)"

text \<open>Two states with the same connection objects, up to \<open>is_active\<close> and the time of the
  last ping.\<close>

definition same_connections :: "engine \<Rightarrow> engine \<Rightarrow> bool" where
  "same_connections s s' =
     (length (conn_objs s') = length (conn_objs s)
      \<and> (\<forall>i. conn_user_id (conn_objs s' ! i) = conn_user_id (conn_objs s ! i)
             \<and> conn_workspace_id (conn_objs s' ! i) = conn_workspace_id (conn_objs s ! i)
             \<and> conn_websocket_open (conn_objs s' ! i) = conn_websocket_open (conn_objs s ! i)))"



text \<open>Two operations that agree in every field but \<open>operation_id\<close>.\<close>

definition equal_but_operation_id :: "operation \<Rightarrow> operation \<Rightarrow> bool" where
  "equal_but_operation_id x y = (x\<lparr>op_operation_id := []\<rparr> = y\<lparr>op_operation_id := []\<rparr>)"

text \<open>
  The range a delete removes according to the specification:
  \<open>[min(position, len), min(position + length, len))\<close>.
\<close>

definition clamped_delete :: "string \<Rightarrow> operation \<Rightarrow> int \<times> int" where
  "clamped_delete content operation =
     (min (op_position operation) (len content),
      min (op_position operation + or_zero (op_length operation)) (len content))"



section \<open>Example states\<close>

text \<open>An \<open>Operation\<close> with the fields the examples vary.\<close>

definition mk_op :: "OperationType \<Rightarrow> int \<Rightarrow> string option \<Rightarrow> int option \<Rightarrow> string \<Rightarrow> operation" where
  "mk_op ty pos c l uid =
     \<lparr>op_type = ty, op_position = pos, op_content = c, op_length = l, op_attributes = None,
      op_timestamp = 0, op_user_id = uid, op_operation_id = uid\<rparr>"

text \<open>A store with two operations; the UUIDs to come are \<open>u\<close>, \<open>uu\<close>, \<open>uuu\<close>, ...\<close>

definition two_ops :: "operation \<Rightarrow> operation \<Rightarrow> py_state" where
  "two_ops a b = \<lparr>objs = [a, b], uuids = (\<lambda>n. replicate (Suc n) CHR ''u'')\<rparr>"

text \<open>A document with the pending operations \<open>ps\<close>.\<close>

definition doc_with_pending :: "ref list \<Rightarrow> document_state" where
  "doc_with_pending ps =
     \<lparr>doc_document_id = ''d'', doc_content = [], doc_version = 0, doc_operations = [],
      doc_active_users = [], doc_pending_operations = ps, doc_last_modified = 0,
      doc_conflict_resolution_needed = False\<rparr>"

text \<open>
  An engine with two users, \<open>u\<close> and \<open>uuu\<close>, connected to the workspace \<open>w\<close> over the
  connection objects 0 and 1, and a cursor message.
\<close>

definition example_engine :: engine where
  "example_engine =
     step (step (init_engine (\<lambda>n. replicate (Suc n) CHR ''u'') (\<lambda>_. 0)) 0 (Connect ''w'' True))
          0 (Connect ''w'' True)"

definition cursor_msg :: message_data where
  "cursor_msg =
     \<lparr>md_type = Some ''cursor_move'', md_operation = None, md_document_id = Some ''d'',
      md_position = Some 4, md_selection_start = Some 4, md_selection_end = Some 6,
      md_status = None\<rparr>"

text \<open>Two operation messages: an insert that carries no content, and an operation of an
  unknown type.\<close>

definition insert_without_content :: message_data where
  "insert_without_content =
     \<lparr>md_type = Some ''operation'',
      md_operation = Some \<lparr>od_type = Some ''insert'', od_position = Some 0,
                           od_content = None, od_length = None\<rparr>,
      md_document_id = Some ''d'', md_position = None, md_selection_start = None,
      md_selection_end = None, md_status = None\<rparr>"

definition unknown_type :: message_data where
  "unknown_type =
     \<lparr>md_type = Some ''operation'',
      md_operation = Some \<lparr>od_type = Some ''replace'', od_position = Some 0,
                           od_content = Some ''x'', od_length = None\<rparr>,
      md_document_id = Some ''d'', md_position = None, md_selection_start = None,
      md_selection_end = None, md_status = None\<rparr>"

text \<open>An operation message for the document \<open>d\<close>.\<close>

definition operation_msg :: "string \<Rightarrow> int \<Rightarrow> string option \<Rightarrow> int option \<Rightarrow> message_data" where
  "operation_msg ty pos c l =
     \<lparr>md_type = Some ''operation'',
      md_operation = Some \<lparr>od_type = Some ty, od_position = Some pos,
                           od_content = c, od_length = l\<rparr>,
      md_document_id = Some ''d'', md_position = None, md_selection_start = None,
      md_selection_end = None, md_status = None\<rparr>"

text \<open>
  An engine with one user, \<open>u\<close>, connected to the workspace \<open>w\<close>; the same after the user
  inserted \<open>a\<close> into the new document \<open>d\<close>; and after 1000 retain operations more.
\<close>

definition one_user :: engine where
  "one_user = step (init_engine (\<lambda>n. replicate (Suc n) CHR ''u'') (\<lambda>_. 0)) 0 (Connect ''w'' True)"

definition after_insert :: engine where
  "after_insert = step one_user 0 (Receive 0 (Json (operation_msg ''insert'' 0 (Some ''a'') None)))"

definition retain_round :: "engine \<Rightarrow> engine" where
  "retain_round s = step s 0 (Receive 0 (Json (operation_msg ''retain'' 0 None None)))"

definition overflow_engine :: engine where
  "overflow_engine = (retain_round ^^ 1000) after_insert"

text \<open>
  The state after the insert and \<open>n\<close> retain operations: the content is \<open>a\<close>, the pending
  operations are the user's own, the history holds \<open>n + 1\<close> operations, up to 1000, all but
  the first of them retains, and all of them once the insert has been dropped.
\<close>

definition retained :: "nat \<Rightarrow> engine \<Rightarrow> bool" where
  "retained n s =
     (reachable s \<and> 0 < length (conn_objs s)
      \<and> conn_workspace_id (conn_objs s ! 0) = ''w'' \<and> conn_user_id (conn_objs s ! 0) = ''u''
      \<and> (case map_of (documents_of s ''w'') ''d'' of
            None \<Rightarrow> False
          | Some document \<Rightarrow>
              doc_content document = ''a''
              \<and> (\<forall>r \<in> set (doc_pending_operations document).
                     r < length (objs (py s)) \<and> op_user_id (objs (py s) ! r) = ''u'')
              \<and> length (doc_operations document) = min (Suc n) 1000
              \<and> (\<forall>r \<in> set (tl (doc_operations document)).
                     r < length (objs (py s)) \<and> op_type (objs (py s) ! r) = RETAIN)
              \<and> (1000 \<le> n \<longrightarrow>
                   (\<forall>r \<in> set (doc_operations document).
                     r < length (objs (py s)) \<and> op_type (objs (py s) ! r) = RETAIN))))"




section \<open>Properties of \<open>apply_operation\<close>\<close>

lemma len_nonneg: "0 \<le> len s"
  by (simp add: len_def)

lemma apply_insert:
  "op_type o1 = INSERT \<Longrightarrow> 0 \<le> op_position o1 \<Longrightarrow>
   apply_operation s o1 = take (nat (op_position o1)) s @ or_empty (op_content o1) @ drop (nat (op_position o1)) s"
  by (auto simp: apply_operation_def slice_to_def slice_from_def len_def min_def Let_def)

lemma apply_delete:
  "op_type o1 = DELETE \<Longrightarrow> 0 \<le> op_position o1 \<Longrightarrow> 0 \<le> or_zero (op_length o1) \<Longrightarrow>
   apply_operation s o1 = take (nat (op_position o1)) s @ drop (nat (op_position o1) + nat (or_zero (op_length o1))) s"
  by (auto simp: apply_operation_def slice_to_def slice_from_def len_def min_def Let_def nat_add_distrib)

lemma cut: "p \<le> length s \<Longrightarrow> \<exists>a b. s = a @ b \<and> length a = p"
  by (rule exI[of _ "take p s"], rule exI[of _ "drop p s"]) simp

lemma ins_ins:
  assumes "p1 \<le> p2" "p2 \<le> length s"
  shows "take (p2 + length c1) (take p1 s @ c1 @ drop p1 s) @ c2 @ drop (p2 + length c1) (take p1 s @ c1 @ drop p1 s)
       = take p1 (take p2 s @ c2 @ drop p2 s) @ c1 @ drop p1 (take p2 s @ c2 @ drop p2 s)"
proof -
  from assms obtain a r where s: "s = a @ r" and a: "length a = p1" using cut[of p1 s] by auto
  with assms have "p2 - p1 \<le> length r" by simp
  then obtain b c where r: "r = b @ c" and b: "length b = p2 - p1" using cut by blast
  have p2: "p2 = length a + length b" using a b assms by simp
  show ?thesis unfolding s r p2 a[symmetric] by simp
qed

lemma del_del:
  assumes "p1 + l1 \<le> p2" "p2 + l2 \<le> length s"
  shows "take (p2 - l1) (take p1 s @ drop (p1 + l1) s) @ drop (p2 - l1 + l2) (take p1 s @ drop (p1 + l1) s)
       = take p1 (take p2 s @ drop (p2 + l2) s) @ drop (p1 + l1) (take p2 s @ drop (p2 + l2) s)"
proof -
  from assms obtain a r where s: "s = a @ r" and a: "length a = p1" using cut[of p1 s] by auto
  with assms have "l1 \<le> length r" by simp
  then obtain b r2 where r: "r = b @ r2" and b: "length b = l1" using cut by blast
  with assms s a have "p2 - (p1 + l1) \<le> length r2" by simp
  then obtain c r3 where r2: "r2 = c @ r3" and c: "length c = p2 - (p1 + l1)" using cut by blast
  with assms s a r b have "l2 \<le> length r3" by simp
  then obtain d e where r3: "r3 = d @ e" and d: "length d = l2" using cut by blast
  have p2: "p2 = length a + length b + length c" using a b c assms by simp
  show ?thesis unfolding s r r2 r3 p2 a[symmetric] b[symmetric] d[symmetric] by simp
qed

lemma ins_del_before:
  assumes "p1 \<le> p2" "p2 + l2 \<le> length s"
  shows "take (p2 + length c1) (take p1 s @ c1 @ drop p1 s) @ drop (p2 + length c1 + l2) (take p1 s @ c1 @ drop p1 s)
       = take p1 (take p2 s @ drop (p2 + l2) s) @ c1 @ drop p1 (take p2 s @ drop (p2 + l2) s)"
proof -
  from assms obtain a r where s: "s = a @ r" and a: "length a = p1" using cut[of p1 s] by auto
  with assms have "p2 - p1 \<le> length r" by simp
  then obtain b r2 where r: "r = b @ r2" and b: "length b = p2 - p1" using cut by blast
  with assms s a have "l2 \<le> length r2" by simp
  then obtain d e where r2: "r2 = d @ e" and d: "length d = l2" using cut by blast
  have p2: "p2 = length a + length b" using a b assms by simp
  show ?thesis unfolding s r r2 p2 a[symmetric] d[symmetric] by simp
qed

lemma ins_del_after:
  assumes "p2 + l2 \<le> p1" "p1 \<le> length s"
  shows "take p2 (take p1 s @ c1 @ drop p1 s) @ drop (p2 + l2) (take p1 s @ c1 @ drop p1 s)
       = take (p1 - l2) (take p2 s @ drop (p2 + l2) s) @ c1 @ drop (p1 - l2) (take p2 s @ drop (p2 + l2) s)"
proof -
  from assms obtain a r where s: "s = a @ r" and a: "length a = p2" using cut[of p2 s] by auto
  with assms have "l2 \<le> length r" by simp
  then obtain b r2 where r: "r = b @ r2" and b: "length b = l2" using cut by blast
  with assms s a have "p1 - (p2 + l2) \<le> length r2" by simp
  then obtain d e where r2: "r2 = d @ e" and d: "length d = p1 - (p2 + l2)" using cut by blast
  have p1: "p1 = length a + length b + length d" using a b d assms by simp
  show ?thesis unfolding s r r2 p1 a[symmetric] b[symmetric] by simp
qed

lemma conv_ins_ins:
  assumes "op_type o1 = INSERT" "op_type o2 = INSERT" "op_type o2' = INSERT"
    "0 \<le> op_position o1" "op_position o1 \<le> op_position o2" "op_position o2 \<le> len base"
    "op_position o2' = op_position o2 + len (or_empty (op_content o1))"
    "op_content o2' = op_content o2"
  shows "apply_operation (apply_operation base o1) o2' = apply_operation (apply_operation base o2) o1"
  using assms ins_ins[of "nat (op_position o1)" "nat (op_position o2)" base "or_empty (op_content o1)" "or_empty (op_content o2)"]
  by (simp add: apply_insert len_def nat_add_distrib)

lemma conv_del_del:
  assumes "op_type o1 = DELETE" "op_type o2 = DELETE" "op_type o2' = DELETE"
    "0 \<le> op_position o1" "0 \<le> or_zero (op_length o1)" "0 \<le> or_zero (op_length o2)"
    "op_position o1 + or_zero (op_length o1) \<le> op_position o2"
    "op_position o2 + or_zero (op_length o2) \<le> len base"
    "op_position o2' = op_position o2 - or_zero (op_length o1)"
    "op_length o2' = op_length o2"
  shows "apply_operation (apply_operation base o1) o2' = apply_operation (apply_operation base o2) o1"
  using assms del_del[of "nat (op_position o1)" "nat (or_zero (op_length o1))" "nat (op_position o2)" "nat (or_zero (op_length o2))" base]
  by (simp add: apply_delete len_def nat_add_distrib nat_diff_distrib)

lemma conv_ins_del_before:
  assumes "op_type o1 = INSERT" "op_type o2 = DELETE" "op_type o2' = DELETE"
    "0 \<le> op_position o1" "0 \<le> or_zero (op_length o2)"
    "op_position o1 \<le> op_position o2"
    "op_position o2 + or_zero (op_length o2) \<le> len base"
    "op_position o2' = op_position o2 + len (or_empty (op_content o1))"
    "op_length o2' = op_length o2"
  shows "apply_operation (apply_operation base o1) o2' = apply_operation (apply_operation base o2) o1"
  using assms ins_del_before[of "nat (op_position o1)" "nat (op_position o2)" "nat (or_zero (op_length o2))" base "or_empty (op_content o1)"]
  by (simp add: apply_delete apply_insert len_def nat_add_distrib)

lemma conv_ins_del_after:
  assumes "op_type o1 = INSERT" "op_type o2 = DELETE" "op_type o1' = INSERT"
    "0 \<le> op_position o2" "0 \<le> or_zero (op_length o2)"
    "op_position o2 + or_zero (op_length o2) \<le> op_position o1"
    "op_position o1 \<le> len base"
    "op_position o1' = op_position o1 - or_zero (op_length o2)"
    "op_content o1' = op_content o1"
  shows "apply_operation (apply_operation base o1) o2 = apply_operation (apply_operation base o2) o1'"
  using assms ins_del_after[of "nat (op_position o2)" "nat (or_zero (op_length o2))" "nat (op_position o1)" base "or_empty (op_content o1)"]
  by (simp add: apply_delete apply_insert len_def nat_add_distrib nat_diff_distrib)

lemma conv_ins_del_inside_empty:
  assumes "op_type o1 = INSERT" "op_type o2 = DELETE" "op_type o1' = INSERT" "op_type o2' = DELETE"
    "0 \<le> op_position o2" "0 \<le> or_zero (op_length o2)" "0 \<le> op_position o1"
    "or_empty (op_content o1) = []"
    "op_position o1' = op_position o2" "op_content o1' = op_content o1"
    "op_position o2' = op_position o2"
    "or_zero (op_length o2') = or_zero (op_length o2) + len (or_empty (op_content o1))"
    "op_position o2 + or_zero (op_length o2) \<le> len base"
  shows "apply_operation (apply_operation base o1) o2' = apply_operation (apply_operation base o2) o1'"
  using assms by (simp add: apply_delete apply_insert len_def min_def)

section \<open>The branches of \<open>transform_operation\<close>\<close>

lemma transform_insert_insert_le:
  assumes "op_type (objs w ! a) = INSERT" "op_type (objs w ! b) = INSERT"
    "op_position (objs w ! a) \<le> op_position (objs w ! b)"
  shows "transform_operation w a b =
     (w\<lparr>objs := objs w @ [\<lparr>op_type = INSERT,
           op_position = op_position (objs w ! b) + len (or_empty (op_content (objs w ! a))),
           op_content = op_content (objs w ! b), op_length = None, op_attributes = None,
           op_timestamp = op_timestamp (objs w ! b), op_user_id = op_user_id (objs w ! b),
           op_operation_id = uuids w 0\<rparr>],
        uuids := \<lambda>n. uuids w (Suc n)\<rparr>, a, length (objs w))"
  using assms by (subst transform_operation.simps) (simp add: Let_def new_Operation_def uuid4_def)

lemma transform_insert_insert_gt:
  assumes "op_type (objs w ! a) = INSERT" "op_type (objs w ! b) = INSERT"
    "\<not> op_position (objs w ! a) \<le> op_position (objs w ! b)"
  shows "transform_operation w a b =
     (w\<lparr>objs := objs w @ [\<lparr>op_type = INSERT,
           op_position = op_position (objs w ! a) + len (or_empty (op_content (objs w ! b))),
           op_content = op_content (objs w ! a), op_length = None, op_attributes = None,
           op_timestamp = op_timestamp (objs w ! a), op_user_id = op_user_id (objs w ! a),
           op_operation_id = uuids w 0\<rparr>],
        uuids := \<lambda>n. uuids w (Suc n)\<rparr>, length (objs w), b)"
  using assms by (subst transform_operation.simps) (simp add: Let_def new_Operation_def uuid4_def)

lemma transform_delete_delete_before:
  assumes "op_type (objs w ! a) = DELETE" "op_type (objs w ! b) = DELETE"
    "op_position (objs w ! a) + or_zero (op_length (objs w ! a)) \<le> op_position (objs w ! b)"
  shows "transform_operation w a b =
     (w\<lparr>objs := objs w @ [\<lparr>op_type = DELETE,
           op_position = op_position (objs w ! b) - or_zero (op_length (objs w ! a)),
           op_content = None, op_length = op_length (objs w ! b), op_attributes = None,
           op_timestamp = op_timestamp (objs w ! b), op_user_id = op_user_id (objs w ! b),
           op_operation_id = uuids w 0\<rparr>],
        uuids := \<lambda>n. uuids w (Suc n)\<rparr>, a, length (objs w))"
  using assms by (subst transform_operation.simps) (simp add: Let_def new_Operation_def uuid4_def)

lemma transform_delete_delete_after:
  assumes "op_type (objs w ! a) = DELETE" "op_type (objs w ! b) = DELETE"
    "\<not> op_position (objs w ! a) + or_zero (op_length (objs w ! a)) \<le> op_position (objs w ! b)"
    "op_position (objs w ! b) + or_zero (op_length (objs w ! b)) \<le> op_position (objs w ! a)"
  shows "transform_operation w a b =
     (w\<lparr>objs := objs w @ [\<lparr>op_type = DELETE,
           op_position = op_position (objs w ! a) - or_zero (op_length (objs w ! b)),
           op_content = None, op_length = op_length (objs w ! a), op_attributes = None,
           op_timestamp = op_timestamp (objs w ! a), op_user_id = op_user_id (objs w ! a),
           op_operation_id = uuids w 0\<rparr>],
        uuids := \<lambda>n. uuids w (Suc n)\<rparr>, length (objs w), b)"
  using assms by (subst transform_operation.simps) (simp add: Let_def new_Operation_def uuid4_def)

lemma transform_delete_delete_overlap:
  assumes "op_type (objs w ! a) = DELETE" "op_type (objs w ! b) = DELETE"
    "\<not> op_position (objs w ! a) + or_zero (op_length (objs w ! a)) \<le> op_position (objs w ! b)"
    "\<not> op_position (objs w ! b) + or_zero (op_length (objs w ! b)) \<le> op_position (objs w ! a)"
  shows "transform_operation w a b =
     (w\<lparr>objs := objs w @ [\<lparr>op_type = DELETE,
           op_position = min (op_position (objs w ! a)) (op_position (objs w ! b)),
           op_content = None,
           op_length = Some (max (op_position (objs w ! a) + or_zero (op_length (objs w ! a)))
                                 (op_position (objs w ! b) + or_zero (op_length (objs w ! b)))
                             - min (op_position (objs w ! a)) (op_position (objs w ! b))),
           op_attributes = None,
           op_timestamp = op_timestamp (objs w ! a), op_user_id = op_user_id (objs w ! a),
           op_operation_id = uuids w 0\<rparr>,
          \<lparr>op_type = RETAIN, op_position = 0, op_content = None, op_length = Some 0,
           op_attributes = None,
           op_timestamp = op_timestamp (objs w ! b), op_user_id = op_user_id (objs w ! b),
           op_operation_id = uuids w 1\<rparr>],
        uuids := \<lambda>n. uuids w (Suc (Suc n))\<rparr>, length (objs w), Suc (length (objs w)))"
  using assms by (subst transform_operation.simps)
    (simp add: Let_def new_Operation_def uuid4_def handle_overlapping_deletes_def)

lemma transform_insert_delete_before:
  assumes "op_type (objs w ! a) = INSERT" "op_type (objs w ! b) = DELETE"
    "op_position (objs w ! a) \<le> op_position (objs w ! b)"
  shows "transform_operation w a b =
     (w\<lparr>objs := objs w @ [\<lparr>op_type = DELETE,
           op_position = op_position (objs w ! b) + len (or_empty (op_content (objs w ! a))),
           op_content = None, op_length = op_length (objs w ! b), op_attributes = None,
           op_timestamp = op_timestamp (objs w ! b), op_user_id = op_user_id (objs w ! b),
           op_operation_id = uuids w 0\<rparr>],
        uuids := \<lambda>n. uuids w (Suc n)\<rparr>, a, length (objs w))"
  using assms by (subst transform_operation.simps) (simp add: Let_def new_Operation_def uuid4_def)

lemma transform_insert_delete_after:
  assumes "op_type (objs w ! a) = INSERT" "op_type (objs w ! b) = DELETE"
    "\<not> op_position (objs w ! a) \<le> op_position (objs w ! b)"
    "op_position (objs w ! b) + or_zero (op_length (objs w ! b)) \<le> op_position (objs w ! a)"
  shows "transform_operation w a b =
     (w\<lparr>objs := objs w @ [\<lparr>op_type = INSERT,
           op_position = op_position (objs w ! a) - or_zero (op_length (objs w ! b)),
           op_content = op_content (objs w ! a), op_length = None, op_attributes = None,
           op_timestamp = op_timestamp (objs w ! a), op_user_id = op_user_id (objs w ! a),
           op_operation_id = uuids w 0\<rparr>],
        uuids := \<lambda>n. uuids w (Suc n)\<rparr>, length (objs w), b)"
  using assms by (subst transform_operation.simps) (simp add: Let_def new_Operation_def uuid4_def)

lemma transform_insert_delete_inside:
  assumes "op_type (objs w ! a) = INSERT" "op_type (objs w ! b) = DELETE"
    "\<not> op_position (objs w ! a) \<le> op_position (objs w ! b)"
    "\<not> op_position (objs w ! b) + or_zero (op_length (objs w ! b)) \<le> op_position (objs w ! a)"
  shows "transform_operation w a b =
     (w\<lparr>objs := objs w @ [\<lparr>op_type = INSERT,
           op_position = op_position (objs w ! b),
           op_content = op_content (objs w ! a), op_length = None, op_attributes = None,
           op_timestamp = op_timestamp (objs w ! a), op_user_id = op_user_id (objs w ! a),
           op_operation_id = uuids w 0\<rparr>,
          \<lparr>op_type = DELETE,
           op_position = op_position (objs w ! b),
           op_content = None,
           op_length = Some (or_zero (op_length (objs w ! b)) + len (or_empty (op_content (objs w ! a)))),
           op_attributes = None,
           op_timestamp = op_timestamp (objs w ! b), op_user_id = op_user_id (objs w ! b),
           op_operation_id = uuids w 1\<rparr>],
        uuids := \<lambda>n. uuids w (Suc (Suc n))\<rparr>, length (objs w), Suc (length (objs w)))"
  using assms by (subst transform_operation.simps)
    (simp add: Let_def new_Operation_def uuid4_def nth_append)

lemma transform_delete_insert:
  assumes "op_type (objs w ! a) = DELETE" "op_type (objs w ! b) = INSERT"
  shows "transform_operation w a b =
     (case transform_operation w b a of (w', b', a') \<Rightarrow> (w', a', b'))"
  using assms by (subst transform_operation.simps) (simp add: Let_def split: prod.splits)

lemma transform_other:
  assumes "op_type (objs w ! a) \<noteq> INSERT \<and> op_type (objs w ! a) \<noteq> DELETE
         \<or> op_type (objs w ! b) \<noteq> INSERT \<and> op_type (objs w ! b) \<noteq> DELETE"
  shows "transform_operation w a b = (w, a, b)"
  using assms by (subst transform_operation.simps) (auto simp add: Let_def)

lemmas transform_branches =
  transform_insert_insert_le transform_insert_insert_gt
  transform_delete_delete_before transform_delete_delete_after transform_delete_delete_overlap
  transform_insert_delete_before transform_insert_delete_after transform_insert_delete_inside
  transform_other

lemma branch_cases:
  obtains (ii_le) "op_type o1 = INSERT" "op_type o2 = INSERT" "op_position o1 \<le> op_position o2"
  | (ii_gt) "op_type o1 = INSERT" "op_type o2 = INSERT" "\<not> op_position o1 \<le> op_position o2"
  | (dd_before) "op_type o1 = DELETE" "op_type o2 = DELETE"
      "op_position o1 + or_zero (op_length o1) \<le> op_position o2"
  | (dd_after) "op_type o1 = DELETE" "op_type o2 = DELETE"
      "\<not> op_position o1 + or_zero (op_length o1) \<le> op_position o2"
      "op_position o2 + or_zero (op_length o2) \<le> op_position o1"
  | (dd_overlap) "op_type o1 = DELETE" "op_type o2 = DELETE"
      "\<not> op_position o1 + or_zero (op_length o1) \<le> op_position o2"
      "\<not> op_position o2 + or_zero (op_length o2) \<le> op_position o1"
  | (id_before) "op_type o1 = INSERT" "op_type o2 = DELETE" "op_position o1 \<le> op_position o2"
  | (id_after) "op_type o1 = INSERT" "op_type o2 = DELETE" "\<not> op_position o1 \<le> op_position o2"
      "op_position o2 + or_zero (op_length o2) \<le> op_position o1"
  | (id_inside) "op_type o1 = INSERT" "op_type o2 = DELETE" "\<not> op_position o1 \<le> op_position o2"
      "\<not> op_position o2 + or_zero (op_length o2) \<le> op_position o1"
  | (di) "op_type o1 = DELETE" "op_type o2 = INSERT"
  | (other) "op_type o1 \<noteq> INSERT \<and> op_type o1 \<noteq> DELETE \<or> op_type o2 \<noteq> INSERT \<and> op_type o2 \<noteq> DELETE"
  by (cases "op_type o1"; cases "op_type o2"; force)

lemma pure_core:
  assumes "op1 < length (objs w)" "op2 < length (objs w)"
    and "r1 < length (objs v)" "r2 < length (objs v)"
    and "objs v ! r1 = objs w ! op1" "objs v ! r2 = objs w ! op2"
    and nm: "\<not> (op_type (objs w ! op1) = DELETE \<and> op_type (objs w ! op2) = INSERT)"
    and "transform_operation w op1 op2 = (w', op1', op2')"
    and "transform_operation v r1 r2 = (v', r1', r2')"
  shows "equal_but_operation_id (objs w' ! op1') (objs v' ! r1')
       \<and> equal_but_operation_id (objs w' ! op2') (objs v' ! r2')
       \<and> (uuids v = uuids w \<longrightarrow> objs w' ! op1' = objs v' ! r1' \<and> objs w' ! op2' = objs v' ! r2')
       \<and> take (length (objs w)) (objs w') = objs w
       \<and> (op1' = op1 \<or> length (objs w) \<le> op1') \<and> (op2' = op2 \<or> length (objs w) \<le> op2')
       \<and> op1' < length (objs w') \<and> op2' < length (objs w')"
proof (cases "objs w ! op1" "objs w ! op2" rule: branch_cases)
  case di
  then show ?thesis using nm by simp
qed (use assms in \<open>auto simp: transform_branches nth_append equal_but_operation_id_def\<close>)

section \<open>Convergence of \<open>transform_operation\<close>\<close>

lemma conv_core:
  assumes refs: "op1 < length (objs w)" "op2 < length (objs w)"
    and g1: "generated_against base (objs w ! op1)"
    and g2: "generated_against base (objs w ! op2)"
    and no: "\<not> overlapping_deletes (objs w ! op1) (objs w ! op2)"
    and ni: "\<not> insert_inside_delete (objs w ! op1) (objs w ! op2)"
    and nm: "\<not> (op_type (objs w ! op1) = DELETE \<and> op_type (objs w ! op2) = INSERT)"
    and t: "transform_operation w op1 op2 = (w', op1', op2')"
  shows "apply_operation (apply_operation base (objs w ! op1)) (objs w' ! op2')
       = apply_operation (apply_operation base (objs w ! op2)) (objs w' ! op1')"
proof -
  let ?o1 = "objs w ! op1" and ?o2 = "objs w ! op2"
  consider (ii) "op_type ?o1 = INSERT" "op_type ?o2 = INSERT"
    | (dd) "op_type ?o1 = DELETE" "op_type ?o2 = DELETE"
    | (id) "op_type ?o1 = INSERT" "op_type ?o2 = DELETE"
    using g1 g2 nm by (auto simp: generated_against_def)
  then show ?thesis
  proof cases
    case ii
    show ?thesis
    proof (cases "op_position ?o1 \<le> op_position ?o2")
      case True
      show ?thesis using ii True g1 g2 refs t
        unfolding transform_insert_insert_le[OF ii True]
        by (clarsimp simp: nth_append) (rule conv_ins_ins; simp add: generated_against_def)
    next
      case False
      show ?thesis using ii False g1 g2 refs t
        unfolding transform_insert_insert_gt[OF ii False]
        by (clarsimp simp: nth_append) (rule conv_ins_ins[symmetric]; simp add: generated_against_def)
    qed
  next
    case dd
    from no dd consider
        (before) "op_position ?o1 + or_zero (op_length ?o1) \<le> op_position ?o2"
      | (after) "\<not> op_position ?o1 + or_zero (op_length ?o1) \<le> op_position ?o2"
                "op_position ?o2 + or_zero (op_length ?o2) \<le> op_position ?o1"
      by (auto simp: overlapping_deletes_def)
    then show ?thesis
    proof cases
      case before
      show ?thesis using dd before g1 g2 refs t
        unfolding transform_delete_delete_before[OF dd before]
        by (clarsimp simp: nth_append) (rule conv_del_del; simp add: generated_against_def)
    next
      case after
      show ?thesis using dd after g1 g2 refs t
        unfolding transform_delete_delete_after[OF dd after]
        by (clarsimp simp: nth_append) (rule conv_del_del[symmetric]; simp add: generated_against_def)
    qed
  next
    case id
    consider (before) "op_position ?o1 \<le> op_position ?o2"
      | (after) "\<not> op_position ?o1 \<le> op_position ?o2"
                "op_position ?o2 + or_zero (op_length ?o2) \<le> op_position ?o1"
      | (inside) "\<not> op_position ?o1 \<le> op_position ?o2"
                "\<not> op_position ?o2 + or_zero (op_length ?o2) \<le> op_position ?o1"
      by linarith
    then show ?thesis
    proof cases
      case before
      show ?thesis using id before g1 g2 refs t
        unfolding transform_insert_delete_before[OF id before]
        by (clarsimp simp: nth_append) (rule conv_ins_del_before; simp add: generated_against_def)
    next
      case after
      show ?thesis using id after g1 g2 refs t
        unfolding transform_insert_delete_after[OF id after]
        by (clarsimp simp: nth_append) (rule conv_ins_del_after; simp add: generated_against_def)
    next
      case inside
      with ni id have e: "or_empty (op_content ?o1) = []"
        by (auto simp: insert_inside_delete_def)
      show ?thesis using id inside g1 g2 refs t e
        unfolding transform_insert_delete_inside[OF id inside]
        by (clarsimp simp: nth_append) (rule conv_ins_del_inside_empty; simp add: generated_against_def or_zero_def len_def)
    qed
  qed
qed

text \<open>
  C1, as the code has it. Let \<open>op1\<close> and \<open>op2\<close> be inserts or deletes generated against the
  content \<open>base\<close>, and \<open>(op1', op2')\<close> the result of \<open>transform_operation\<close>. Applying \<open>op1\<close>
  and then \<open>op2'\<close> gives the content that applying \<open>op2\<close> and then \<open>op1'\<close> gives, unless the
  two are deletes handled by \<open>_handle_overlapping_deletes\<close>, or one is an insert of text
  strictly inside the range of the other, a delete.
\<close>

theorem transform_converges:
  assumes refs: "op1 < length (objs w)" "op2 < length (objs w)"
    and g1: "generated_against base (objs w ! op1)"
    and g2: "generated_against base (objs w ! op2)"
    and no: "\<not> overlapping_deletes (objs w ! op1) (objs w ! op2)"
    and ni1: "\<not> insert_inside_delete (objs w ! op1) (objs w ! op2)"
    and ni2: "\<not> insert_inside_delete (objs w ! op2) (objs w ! op1)"
    and t: "transform_operation w op1 op2 = (w', op1', op2')"
  shows "apply_operation (apply_operation base (objs w ! op1)) (objs w' ! op2')
       = apply_operation (apply_operation base (objs w ! op2)) (objs w' ! op1')"
proof (cases "op_type (objs w ! op1) = DELETE \<and> op_type (objs w ! op2) = INSERT")
  case False
  then show ?thesis using conv_core[OF refs g1 g2 no ni1 _ t] by blast
next
  case True
  then have d: "op_type (objs w ! op1) = DELETE" and i: "op_type (objs w ! op2) = INSERT" by auto
  from t have t': "transform_operation w op2 op1 = (w', op2', op1')"
    unfolding transform_delete_insert[OF d i] by (auto split: prod.splits)
  have no': "\<not> overlapping_deletes (objs w ! op2) (objs w ! op1)"
    using i by (simp add: overlapping_deletes_def)
  have nm: "\<not> (op_type (objs w ! op2) = DELETE \<and> op_type (objs w ! op1) = INSERT)"
    using i by simp
  show ?thesis using conv_core[OF refs(2) refs(1) g2 g1 no' ni2 nm t'] by simp
qed

text \<open>Scenario 1 of the specification: two inserts at position 0 of the empty document.\<close>

theorem transform_converges_witness:
  "case transform_operation
          (two_ops (mk_op INSERT 0 (Some ''cat'') None ''A'') (mk_op INSERT 0 (Some ''dog'') None ''B''))
          0 1 of
     (w', op1', op2') \<Rightarrow>
       apply_operation (apply_operation [] (mk_op INSERT 0 (Some ''cat'') None ''A'')) (objs w' ! op2')
         = ''catdog''
       \<and> apply_operation (apply_operation [] (mk_op INSERT 0 (Some ''dog'') None ''B'')) (objs w' ! op1')
         = ''catdog''"
proof -
  let ?A = "mk_op INSERT 0 (Some ''cat'') None ''A''"
  let ?B = "mk_op INSERT 0 (Some ''dog'') None ''B''"
  let ?W = "\<lparr>objs = [?A, ?B, (mk_op INSERT 3 (Some ''dog'') None ''B'')\<lparr>op_operation_id := ''u''\<rparr>],
             uuids = (\<lambda>n. replicate (Suc (Suc n)) CHR ''u'')\<rparr>"
  have t: "transform_operation (two_ops ?A ?B) 0 1 = (?W, 0, 2)"
    by (simp add: transform_operation.simps two_ops_def mk_op_def Let_def new_Operation_def
          uuid4_def or_empty_def len_def)
  have c: "apply_operation (apply_operation [] (objs (two_ops ?A ?B) ! 0)) (objs ?W ! 2)
      = apply_operation (apply_operation [] (objs (two_ops ?A ?B) ! 1)) (objs ?W ! 0)"
    by (rule transform_converges[OF _ _ _ _ _ _ _ t])
       (simp_all add: two_ops_def mk_op_def generated_against_def overlapping_deletes_def
          insert_inside_delete_def len_def)
  have v: "apply_operation (apply_operation [] ?A) (objs ?W ! 2) = ''catdog''"
    by (simp add: mk_op_def apply_operation_def or_empty_def len_def slice_to_def
          slice_from_def)
  show ?thesis using c v unfolding t by (simp add: two_ops_def)
qed

text \<open>
  Scenario 3 of the specification, with the insert as first operand: on \<open>hello\<close>, an insert
  of \<open>X\<close> at 2 against a delete of the range from 0 to 5. Both are generated against
  \<open>hello\<close> and they are not two deletes, yet one order leaves the empty document and the
  other leaves \<open>X\<close>.
\<close>

theorem transform_converges_counterexample:
  "generated_against ''hello'' (mk_op INSERT 2 (Some ''X'') None ''A'')
   \<and> generated_against ''hello'' (mk_op DELETE 0 None (Some 5) ''B'')
   \<and> \<not> overlapping_deletes (mk_op INSERT 2 (Some ''X'') None ''A'') (mk_op DELETE 0 None (Some 5) ''B'')
   \<and> (case transform_operation
              (two_ops (mk_op INSERT 2 (Some ''X'') None ''A'') (mk_op DELETE 0 None (Some 5) ''B''))
              0 1 of
         (w', op1', op2') \<Rightarrow>
           apply_operation (apply_operation ''hello'' (mk_op INSERT 2 (Some ''X'') None ''A''))
             (objs w' ! op2') = []
           \<and> apply_operation (apply_operation ''hello'' (mk_op DELETE 0 None (Some 5) ''B''))
             (objs w' ! op1') = ''X'')"
  by (simp add: transform_operation.simps two_ops_def mk_op_def Let_def new_Operation_def
        uuid4_def apply_operation_def or_empty_def or_zero_def len_def slice_to_def
        slice_from_def generated_against_def overlapping_deletes_def)

section \<open>\<open>transform_operation\<close> makes new objects and changes none\<close>

text \<open>
  C4, as the code has it. Two calls of \<open>transform_operation\<close> on operations with equal
  fields return operations that are equal in every field but \<open>operation_id\<close>, and equal
  in that field too when \<open>uuid4\<close> yields the same identifiers to both calls. No object of
  the store is changed by a call: the store grows at its end only, and each returned
  reference is the corresponding argument or a new object.
\<close>

theorem transform_operation_pure:
  assumes refs: "op1 < length (objs w)" "op2 < length (objs w)"
    and refs': "r1 < length (objs v)" "r2 < length (objs v)"
    and eq: "objs v ! r1 = objs w ! op1" "objs v ! r2 = objs w ! op2"
    and t: "transform_operation w op1 op2 = (w', op1', op2')"
    and t': "transform_operation v r1 r2 = (v', r1', r2')"
  shows "equal_but_operation_id (objs w' ! op1') (objs v' ! r1')
       \<and> equal_but_operation_id (objs w' ! op2') (objs v' ! r2')
       \<and> (uuids v = uuids w \<longrightarrow> objs w' ! op1' = objs v' ! r1' \<and> objs w' ! op2' = objs v' ! r2')
       \<and> take (length (objs w)) (objs w') = objs w
       \<and> (op1' = op1 \<or> length (objs w) \<le> op1') \<and> (op2' = op2 \<or> length (objs w) \<le> op2')
       \<and> op1' < length (objs w') \<and> op2' < length (objs w')"
proof (cases "op_type (objs w ! op1) = DELETE \<and> op_type (objs w ! op2) = INSERT")
  case False
  then show ?thesis using pure_core[OF refs refs' eq _ t t'] by blast
next
  case True
  then have d: "op_type (objs w ! op1) = DELETE" and i: "op_type (objs w ! op2) = INSERT" by auto
  from t have s: "transform_operation w op2 op1 = (w', op2', op1')"
    unfolding transform_delete_insert[OF d i] by (auto split: prod.splits)
  from d i eq have "op_type (objs v ! r1) = DELETE" "op_type (objs v ! r2) = INSERT" by auto
  with t' have s': "transform_operation v r2 r1 = (v', r2', r1')"
    by (auto simp: transform_delete_insert split: prod.splits)
  have nm: "\<not> (op_type (objs w ! op2) = DELETE \<and> op_type (objs w ! op1) = INSERT)"
    using i by simp
  show ?thesis using pure_core[OF refs(2) refs(1) refs'(2) refs'(1) eq(2) eq(1) nm s s'] by blast
qed

text \<open>Two calls, one after the other, on the two inserts of scenario 1 of the
  specification.\<close>

theorem transform_operation_pure_witness:
  "case transform_operation
          (two_ops (mk_op INSERT 0 (Some ''cat'') None ''A'') (mk_op INSERT 0 (Some ''dog'') None ''B''))
          0 1 of
     (w1, a1, b1) \<Rightarrow>
       (case transform_operation w1 0 1 of
          (w2, a2, b2) \<Rightarrow>
            equal_but_operation_id (objs w1 ! a1) (objs w2 ! a2)
            \<and> equal_but_operation_id (objs w1 ! b1) (objs w2 ! b2)
            \<and> take 2 (objs w1) = [mk_op INSERT 0 (Some ''cat'') None ''A'', mk_op INSERT 0 (Some ''dog'') None ''B'']
            \<and> take 3 (objs w2) = objs w1)"
proof -
  let ?A = "mk_op INSERT 0 (Some ''cat'') None ''A''"
  let ?B = "mk_op INSERT 0 (Some ''dog'') None ''B''"
  let ?B1 = "(mk_op INSERT 3 (Some ''dog'') None ''B'')\<lparr>op_operation_id := ''u''\<rparr>"
  let ?B2 = "(mk_op INSERT 3 (Some ''dog'') None ''B'')\<lparr>op_operation_id := ''uu''\<rparr>"
  let ?W1 = "\<lparr>objs = [?A, ?B, ?B1], uuids = (\<lambda>n. replicate (Suc (Suc n)) CHR ''u'')\<rparr>"
  let ?W2 = "\<lparr>objs = [?A, ?B, ?B1, ?B2], uuids = (\<lambda>n. replicate (Suc (Suc (Suc n))) CHR ''u'')\<rparr>"
  have t1: "transform_operation (two_ops ?A ?B) 0 1 = (?W1, 0, 2)"
    by (simp add: transform_operation.simps two_ops_def mk_op_def Let_def new_Operation_def
          uuid4_def or_empty_def len_def)
  have t2: "transform_operation ?W1 0 1 = (?W2, 0, 3)"
    by (simp add: transform_operation.simps mk_op_def Let_def new_Operation_def
          uuid4_def or_empty_def len_def)
  have "equal_but_operation_id (objs ?W1 ! 0) (objs ?W2 ! 0)
       \<and> equal_but_operation_id (objs ?W1 ! 2) (objs ?W2 ! 3)
       \<and> (uuids ?W1 = uuids (two_ops ?A ?B) \<longrightarrow> objs ?W1 ! 0 = objs ?W2 ! 0 \<and> objs ?W1 ! 2 = objs ?W2 ! 3)
       \<and> take (length (objs (two_ops ?A ?B))) (objs ?W1) = objs (two_ops ?A ?B)
       \<and> (0 = (0::nat) \<or> length (objs (two_ops ?A ?B)) \<le> 0)
       \<and> (2 = (1::nat) \<or> length (objs (two_ops ?A ?B)) \<le> 2)
       \<and> 0 < length (objs ?W1) \<and> 2 < length (objs ?W1)"
    by (rule transform_operation_pure[OF _ _ _ _ _ _ t1 t2]) (simp_all add: two_ops_def)
  then show ?thesis unfolding t1 t2 prod.case by (simp add: two_ops_def)
qed

text \<open>
  The same two calls: the arguments are unchanged between them, and the second call returns
  an operation that differs from the one the first call returned, in \<open>operation_id\<close>.
\<close>

theorem transform_operation_pure_counterexample:
  "case transform_operation
          (two_ops (mk_op INSERT 0 (Some ''cat'') None ''A'') (mk_op INSERT 0 (Some ''dog'') None ''B''))
          0 1 of
     (w1, a1, b1) \<Rightarrow>
       (case transform_operation w1 0 1 of
          (w2, a2, b2) \<Rightarrow>
            objs w2 ! 0 = objs w1 ! 0 \<and> objs w2 ! 1 = objs w1 ! 1
            \<and> op_operation_id (objs w1 ! b1) = ''u''
            \<and> op_operation_id (objs w2 ! b2) = ''uu''
            \<and> objs w2 ! b2 \<noteq> objs w1 ! b1)"
  by (simp add: transform_operation.simps two_ops_def mk_op_def Let_def new_Operation_def
        uuid4_def or_empty_def len_def)

section \<open>Deletes against deletes\<close>

text \<open>
  C2, as the code has it. For two deletes with the ranges \<open>[s1, e1)\<close> and \<open>[s2, e2)\<close>:
  when \<open>e1 \<le> s2\<close> (the first lies before the second, adjacent ranges included) the first
  operation is returned as it is and the second is a new delete moved left by the first
  one's length; otherwise, when \<open>e2 \<le> s1\<close>, the second is returned as it is and the first is
  a new delete moved left by the second one's length; otherwise the first result is one
  delete covering \<open>[min(s1, s2), max(e1, e2))\<close> and the second a retain of position 0 and
  length 0.
\<close>

theorem transform_delete_delete:
  assumes refs: "op1 < length (objs w)" "op2 < length (objs w)"
    and d: "op_type (objs w ! op1) = DELETE" "op_type (objs w ! op2) = DELETE"
    and t: "transform_operation w op1 op2 = (w', op1', op2')"
  shows "(op_position (objs w ! op1) + or_zero (op_length (objs w ! op1)) \<le> op_position (objs w ! op2) \<longrightarrow>
            op1' = op1 \<and> objs w' ! op1' = objs w ! op1
            \<and> op_type (objs w' ! op2') = DELETE
            \<and> op_position (objs w' ! op2') = op_position (objs w ! op2) - or_zero (op_length (objs w ! op1))
            \<and> op_length (objs w' ! op2') = op_length (objs w ! op2))
       \<and> (\<not> op_position (objs w ! op1) + or_zero (op_length (objs w ! op1)) \<le> op_position (objs w ! op2)
          \<and> op_position (objs w ! op2) + or_zero (op_length (objs w ! op2)) \<le> op_position (objs w ! op1) \<longrightarrow>
            op2' = op2 \<and> objs w' ! op2' = objs w ! op2
            \<and> op_type (objs w' ! op1') = DELETE
            \<and> op_position (objs w' ! op1') = op_position (objs w ! op1) - or_zero (op_length (objs w ! op2))
            \<and> op_length (objs w' ! op1') = op_length (objs w ! op1))
       \<and> (\<not> op_position (objs w ! op1) + or_zero (op_length (objs w ! op1)) \<le> op_position (objs w ! op2)
          \<and> \<not> op_position (objs w ! op2) + or_zero (op_length (objs w ! op2)) \<le> op_position (objs w ! op1) \<longrightarrow>
            op_type (objs w' ! op1') = DELETE
            \<and> op_position (objs w' ! op1') = min (op_position (objs w ! op1)) (op_position (objs w ! op2))
            \<and> op_length (objs w' ! op1') =
                Some (max (op_position (objs w ! op1) + or_zero (op_length (objs w ! op1)))
                          (op_position (objs w ! op2) + or_zero (op_length (objs w ! op2)))
                      - min (op_position (objs w ! op1)) (op_position (objs w ! op2)))
            \<and> op_type (objs w' ! op2') = RETAIN
            \<and> op_position (objs w' ! op2') = 0
            \<and> op_length (objs w' ! op2') = Some 0)"
proof (cases "objs w ! op1" "objs w ! op2" rule: branch_cases)
  case dd_before
  then show ?thesis using refs t by (auto simp: transform_delete_delete_before nth_append)
next
  case dd_after
  then show ?thesis using refs t by (auto simp: transform_delete_delete_after nth_append)
next
  case dd_overlap
  then show ?thesis using refs t by (auto simp: transform_delete_delete_overlap nth_append)
qed (use d in auto)

text \<open>Scenario 2 of the specification: on \<open>abcdef\<close>, a delete of \<open>[1, 4)\<close> against a delete
  of \<open>[2, 5)\<close>.\<close>

theorem transform_delete_delete_witness:
  "case transform_operation
          (two_ops (mk_op DELETE 1 None (Some 3) ''A'') (mk_op DELETE 2 None (Some 3) ''B''))
          0 1 of
     (w', op1', op2') \<Rightarrow>
       op_type (objs w' ! op1') = DELETE \<and> op_position (objs w' ! op1') = 1
       \<and> op_length (objs w' ! op1') = Some 4
       \<and> op_type (objs w' ! op2') = RETAIN \<and> op_position (objs w' ! op2') = 0
       \<and> op_length (objs w' ! op2') = Some 0
       \<and> apply_operation ''abcdef'' (objs w' ! op1') = ''af''"
proof -
  let ?A = "mk_op DELETE 1 None (Some 3) ''A''"
  let ?B = "mk_op DELETE 2 None (Some 3) ''B''"
  obtain w' op1' op2' where t: "transform_operation (two_ops ?A ?B) 0 1 = (w', op1', op2')"
    using prod_cases3 by blast
  have "op_type (objs w' ! op1') = DELETE \<and> op_position (objs w' ! op1') = 1
       \<and> op_length (objs w' ! op1') = Some 4
       \<and> op_type (objs w' ! op2') = RETAIN \<and> op_position (objs w' ! op2') = 0
       \<and> op_length (objs w' ! op2') = Some 0"
    using transform_delete_delete[OF _ _ _ _ t]
    by (simp add: two_ops_def mk_op_def or_zero_def)
  then show ?thesis unfolding t prod.case
    by (simp add: apply_operation_def or_zero_def len_def slice_to_def slice_from_def)
qed

text \<open>
  Adjacent ranges, \<open>[0, 2)\<close> and \<open>[2, 4)\<close>, are not merged: the first operation comes back as
  it is, a delete of length 2 and not of length 4, and the second is a delete at position
  0, not a retain.
\<close>

theorem transform_delete_delete_counterexample:
  "case transform_operation
          (two_ops (mk_op DELETE 0 None (Some 2) ''A'') (mk_op DELETE 2 None (Some 2) ''B''))
          0 1 of
     (w', op1', op2') \<Rightarrow>
       op1' = 0 \<and> op_position (objs w' ! op1') = 0 \<and> op_length (objs w' ! op1') = Some 2
       \<and> op_type (objs w' ! op2') = DELETE \<and> op_position (objs w' ! op2') = 0
       \<and> op_length (objs w' ! op2') = Some 2"
  by (simp add: transform_operation.simps two_ops_def mk_op_def Let_def new_Operation_def
        uuid4_def or_zero_def)

section \<open>\<open>apply_operation\<close> on positions and lengths out of range\<close>

text \<open>
  C3, as the code has it. \<open>apply_operation\<close> has no failing branch: on the typed fields of
  an \<open>Operation\<close> neither \<open>min\<close> nor a slice nor a concatenation raises, so the model is a
  total function into strings. For an operation whose position and length are not
  negative (an absent length counts as 0): an insert splices at \<open>min(position, len)\<close>, a
  delete removes the range \<open>[min(position, len), min(position + length, len))\<close>, any other
  operation returns the content, and the length of the output is the one these bounds
  give.
\<close>

theorem apply_operation_total:
  assumes "0 \<le> op_position operation" "0 \<le> or_zero (op_length operation)"
  shows "(op_type operation = INSERT \<longrightarrow>
            apply_operation content operation =
              take (nat (min (op_position operation) (len content))) content
              @ or_empty (op_content operation)
              @ drop (nat (min (op_position operation) (len content))) content
            \<and> len (apply_operation content operation)
                = len content + len (or_empty (op_content operation)))
       \<and> (op_type operation = DELETE \<longrightarrow>
            apply_operation content operation =
              take (nat (fst (clamped_delete content operation))) content
              @ drop (nat (snd (clamped_delete content operation))) content
            \<and> fst (clamped_delete content operation) \<le> snd (clamped_delete content operation)
            \<and> len (apply_operation content operation)
                = len content - (snd (clamped_delete content operation)
                                 - fst (clamped_delete content operation)))
       \<and> (op_type operation \<noteq> INSERT \<and> op_type operation \<noteq> DELETE \<longrightarrow>
            apply_operation content operation = content)"
  using assms
  by (auto simp: apply_operation_def clamped_delete_def slice_to_def slice_from_def len_def
        min_def Let_def)

text \<open>A delete whose range ends past the end, an insert past the end, and a retain.\<close>

theorem apply_operation_total_witness:
  "apply_operation ''hello'' (mk_op DELETE 3 None (Some 10) ''A'') = ''hel''
   \<and> apply_operation ''hello'' (mk_op INSERT 9 (Some ''!'') None ''A'') = ''hello!''
   \<and> apply_operation ''hello'' (mk_op RETAIN 9 None (Some 7) ''A'') = ''hello''"
  using apply_operation_total[of "mk_op DELETE 3 None (Some 10) ''A''" "''hello''"]
        apply_operation_total[of "mk_op INSERT 9 (Some ''!'') None ''A''" "''hello''"]
        apply_operation_total[of "mk_op RETAIN 9 None (Some 7) ''A''" "''hello''"]
  by (simp add: mk_op_def or_zero_def or_empty_def len_def clamped_delete_def)

text \<open>
  A delete with a position that is not negative and a negative length: on \<open>abc\<close>, position 5
  and length -3 give the range \<open>[3, 2)\<close>, which holds no character, and the output is
  \<open>abcabc\<close>, longer than the input.
\<close>

theorem apply_operation_total_counterexample:
  "0 \<le> op_position (mk_op DELETE 5 None (Some (- 3)) ''A'')
   \<and> apply_operation ''abc'' (mk_op DELETE 5 None (Some (- 3)) ''A'') = ''abcabc''
   \<and> clamped_delete ''abc'' (mk_op DELETE 5 None (Some (- 3)) ''A'') = (3, 2)"
  by (simp add: mk_op_def apply_operation_def clamped_delete_def or_zero_def len_def
        slice_to_def slice_from_def)

section \<open>Rebasing against the pending operations\<close>

lemma transform_frame:
  assumes refs: "op1 < length (objs w)" "op2 < length (objs w)"
    and t: "transform_operation w op1 op2 = (w', op1', op2')"
  shows "take (length (objs w)) (objs w') = objs w
       \<and> (op1' = op1 \<or> length (objs w) \<le> op1') \<and> (op2' = op2 \<or> length (objs w) \<le> op2')
       \<and> op1' < length (objs w') \<and> op2' < length (objs w')"
proof (cases "op_type (objs w ! op1) = DELETE \<and> op_type (objs w ! op2) = INSERT")
  case False
  then show ?thesis using pure_core[OF refs refs _ _ _ t t] by blast
next
  case True
  then have d: "op_type (objs w ! op1) = DELETE" and i: "op_type (objs w ! op2) = INSERT" by auto
  from t have s: "transform_operation w op2 op1 = (w', op2', op1')"
    unfolding transform_delete_insert[OF d i] by (auto split: prod.splits)
  have nm: "\<not> (op_type (objs w ! op2) = DELETE \<and> op_type (objs w ! op1) = INSERT)"
    using i by simp
  show ?thesis using pure_core[OF refs(2) refs(1) refs(2) refs(1) _ _ nm s s] by blast
qed

lemma take_prefix_length: "take n ys = xs \<Longrightarrow> length xs = n \<Longrightarrow> n \<le> length ys"
  by (metis length_take min.cobounded2 min_def nat_le_linear take_all)

lemma take_prefix_nth: "take n ys = xs \<Longrightarrow> r < n \<Longrightarrow> ys ! r = xs ! r"
  by (metis nth_take)

lemma rebase_loop:
  assumes "\<forall>r \<in> set ps. r < length (objs w)" "operation < length (objs w)" "t < length (objs w)"
    and "fold (\<lambda>pending_op (w, transformed_op).
                    if op_user_id (objs w ! pending_op) \<noteq> op_user_id (objs w ! operation) then
                      (let (w', t, _) = transform_operation w transformed_op pending_op
                       in (w', t))
                    else (w, transformed_op)) ps (w, t) = (w', t')"
  shows "take (length (objs w)) (objs w') = objs w \<and> t' < length (objs w')
       \<and> (t' = t \<or> length (objs w) \<le> t')"
  using assms
proof (induction ps arbitrary: w t)
  case Nil
  then show ?case by simp
next
  case (Cons p ps)
  show ?case
  proof (cases "op_user_id (objs w ! p) \<noteq> op_user_id (objs w ! operation)")
    case False
    with Cons.prems show ?thesis using Cons.IH[of w t] by simp
  next
    case True
    obtain w1 t1 p1 where tr: "transform_operation w t p = (w1, t1, p1)"
      using prod_cases3 by blast
    from Cons.prems have pv: "p < length (objs w)" by simp
    note fr = transform_frame[OF Cons.prems(3) pv tr]
    then have pre: "take (length (objs w)) (objs w1) = objs w" by simp
    have le: "length (objs w) \<le> length (objs w1)"
      using take_prefix_length[OF pre] by simp
    from Cons.prems(4) True tr
    have f: "fold (\<lambda>pending_op (w, transformed_op).
                    if op_user_id (objs w ! pending_op) \<noteq> op_user_id (objs w ! operation) then
                      (let (w', t, _) = transform_operation w transformed_op pending_op
                       in (w', t))
                    else (w, transformed_op)) ps (w1, t1) = (w', t')"
      by simp
    have a1: "\<forall>r \<in> set ps. r < length (objs w1)" using Cons.prems(1) le by auto
    have a2: "operation < length (objs w1)" using Cons.prems(2) le by simp
    have a3: "t1 < length (objs w1)" using fr by simp
    note ih = Cons.IH[OF a1 a2 a3 f]
    have "take (length (objs w)) (objs w') = take (length (objs w)) (take (length (objs w1)) (objs w'))"
      using le by (simp add: min_def)
    also have "\<dots> = objs w" using ih pre by simp
    finally have g1: "take (length (objs w)) (objs w') = objs w" .
    have g2: "t' = t \<or> length (objs w) \<le> t'" using ih fr le by auto
    show ?thesis using g1 g2 ih by simp
  qed
qed

text \<open>
  C10. \<open>_apply_operational_transformation\<close> changes no \<open>Operation\<close> object: the store grows
  at its end only, so every pending operation is as it was. The new pending list is the
  old one with the rebased operation appended, cut to its last ten entries, and nothing
  else of the document changes. The rebased operation is the incoming object or a new
  one: the transformed counterparts of the pending operations are kept nowhere.
\<close>

theorem rebase_keeps_pending:
  assumes "\<forall>r \<in> set (doc_pending_operations document). r < length (objs w)"
    and "operation < length (objs w)"
    and "apply_operational_transformation w document operation = (w', document', transformed_op)"
  shows "take (length (objs w)) (objs w') = objs w
       \<and> (\<forall>r \<in> set (doc_pending_operations document). objs w' ! r = objs w ! r)
       \<and> doc_pending_operations document' =
            drop (length (doc_pending_operations document) + 1 - 10)
                 (doc_pending_operations document @ [transformed_op])
       \<and> document' = document\<lparr>doc_pending_operations := doc_pending_operations document'\<rparr>
       \<and> (transformed_op = operation \<or> length (objs w) \<le> transformed_op)
       \<and> transformed_op < length (objs w')"
proof -
  obtain w1 t1 where f: "fold (\<lambda>pending_op (w, transformed_op).
                    if op_user_id (objs w ! pending_op) \<noteq> op_user_id (objs w ! operation) then
                      (let (w', t, _) = transform_operation w transformed_op pending_op
                       in (w', t))
                    else (w, transformed_op)) (doc_pending_operations document) (w, operation) = (w1, t1)"
    by fastforce
  note l = rebase_loop[OF assms(1) assms(2) assms(2) f]
  from assms(3) f have e: "w' = w1" "transformed_op = t1"
    "document' = document\<lparr>doc_pending_operations :=
        (if length (doc_pending_operations document @ [t1]) > 10
         then drop (length (doc_pending_operations document @ [t1]) - 10) (doc_pending_operations document @ [t1])
         else doc_pending_operations document @ [t1])\<rparr>"
    by (auto simp: apply_operational_transformation_def Let_def)
  have "\<forall>r \<in> set (doc_pending_operations document). objs w1 ! r = objs w ! r"
    using l assms(1) take_prefix_nth by blast
  then show ?thesis using l e by auto
qed

text \<open>The insert of \<open>cat\<close> by A arrives while the insert of \<open>dog\<close> by B is pending: the
  pending object is unchanged and stays first in the list.\<close>

theorem rebase_keeps_pending_witness:
  "case apply_operational_transformation
          (two_ops (mk_op INSERT 0 (Some ''cat'') None ''A'') (mk_op INSERT 0 (Some ''dog'') None ''B''))
          (doc_with_pending [1]) 0 of
     (w', document', transformed_op) \<Rightarrow>
       transformed_op = 0
       \<and> doc_pending_operations document' = [1, 0]
       \<and> objs w' ! 1 = mk_op INSERT 0 (Some ''dog'') None ''B''
       \<and> length (objs w') = 3"
proof -
  let ?A = "mk_op INSERT 0 (Some ''cat'') None ''A''"
  let ?B = "mk_op INSERT 0 (Some ''dog'') None ''B''"
  obtain w' document' transformed_op
    where r: "apply_operational_transformation (two_ops ?A ?B) (doc_with_pending [1]) 0
              = (w', document', transformed_op)"
    using prod_cases3 by blast
  have v: "transformed_op = 0" "length (objs w') = 3"
    using r
    by (auto simp: apply_operational_transformation_def transform_operation.simps two_ops_def
          mk_op_def doc_with_pending_def Let_def new_Operation_def uuid4_def)
  have "\<forall>r \<in> set (doc_pending_operations (doc_with_pending [1])).
          r < length (objs (two_ops ?A ?B))"
    by (simp add: doc_with_pending_def two_ops_def)
  moreover have "0 < length (objs (two_ops ?A ?B))" by (simp add: two_ops_def)
  ultimately have "(\<forall>r \<in> set (doc_pending_operations (doc_with_pending [1])).
             objs w' ! r = objs (two_ops ?A ?B) ! r)
       \<and> doc_pending_operations document' =
            drop (length (doc_pending_operations (doc_with_pending [1])) + 1 - 10)
                 (doc_pending_operations (doc_with_pending [1]) @ [transformed_op])"
    using rebase_keeps_pending[OF _ _ r] by blast
  then show ?thesis unfolding r prod.case using v
    by (simp add: doc_with_pending_def two_ops_def)
qed

section \<open>Sending and broadcasting change no workspace\<close>

lemma send_json_frame [simp]:
  "workspaces (send_json s c m) = workspaces s"
  "py (send_json s c m) = py s"
  "connections (send_json s c m) = connections s"
  "user_connections (send_json s c m) = user_connections s"
  "workspace_connections (send_json s c m) = workspace_connections s"
  "str_hash (send_json s c m) = str_hash s"
  "stat_operations_processed (send_json s c m) = stat_operations_processed s"
  "length (conn_objs (send_json s c m)) = length (conn_objs s)"
  by (simp_all add: send_json_def Let_def)

lemma broadcast_frame_aux:
  "workspaces (broadcast_to_workspace s w m x) = workspaces s
   \<and> py (broadcast_to_workspace s w m x) = py s
   \<and> connections (broadcast_to_workspace s w m x) = connections s
   \<and> user_connections (broadcast_to_workspace s w m x) = user_connections s
   \<and> workspace_connections (broadcast_to_workspace s w m x) = workspace_connections s
   \<and> str_hash (broadcast_to_workspace s w m x) = str_hash s
   \<and> stat_operations_processed (broadcast_to_workspace s w m x) = stat_operations_processed s
   \<and> length (conn_objs (broadcast_to_workspace s w m x)) = length (conn_objs s)"
  unfolding broadcast_to_workspace_def
  by (rule fold_invariant[where Q = "\<lambda>_. True"]) (auto simp: Let_def split: option.splits)

lemma broadcast_frame [simp]:
  "workspaces (broadcast_to_workspace s w m x) = workspaces s"
  "py (broadcast_to_workspace s w m x) = py s"
  "connections (broadcast_to_workspace s w m x) = connections s"
  "user_connections (broadcast_to_workspace s w m x) = user_connections s"
  "workspace_connections (broadcast_to_workspace s w m x) = workspace_connections s"
  "str_hash (broadcast_to_workspace s w m x) = str_hash s"
  "stat_operations_processed (broadcast_to_workspace s w m x) = stat_operations_processed s"
  "length (conn_objs (broadcast_to_workspace s w m x)) = length (conn_objs s)"
  using broadcast_frame_aux[of s w m x] by simp_all

lemma documents_of_cong: "workspaces s' = workspaces s \<Longrightarrow> documents_of s' = documents_of s"
  by (rule ext) (simp add: documents_of_def)

section \<open>Cursor and presence messages\<close>

text \<open>
  C9. Handling a \<open>cursor_move\<close> or a \<open>presence_update\<close> message changes no \<open>Operation\<close>
  object and no document of any workspace, so no content and no version. The workspaces
  are as before, or differ in one presence entry only: the one of the connection's user in
  the connection's workspace, with new values for cursor position, selection start,
  selection end and last-seen time and every other field as before. (What else changes
  is outside the workspaces: the sent messages, a failed recipient's \<open>is_active\<close>, the
  counter of sent messages and the log. A \<open>presence_update\<close> only logs the
  \<open>AttributeError\<close> of the handler that the class does not define.)
\<close>

theorem cursor_move_frame:
  assumes "md_type data = Some ''cursor_move'' \<or> md_type data = Some ''presence_update''"
  shows "py (handle_text s now connection (Json data)) = py s
       \<and> documents_of (handle_text s now connection (Json data)) = documents_of s
       \<and> (workspaces (handle_text s now connection (Json data)) = workspaces s
          \<or> (\<exists>workspace presence.
                md_type data = Some ''cursor_move''
                \<and> map_of (workspaces s) (conn_workspace_id (conn_objs s ! connection)) = Some workspace
                \<and> map_of (ws_active_users workspace) (conn_user_id (conn_objs s ! connection))
                    = Some presence
                \<and> workspaces (handle_text s now connection (Json data)) =
                    AList.update (conn_workspace_id (conn_objs s ! connection))
                      (workspace\<lparr>ws_active_users :=
                         AList.update (conn_user_id (conn_objs s ! connection))
                           (presence\<lparr>up_cursor_position := get_or (md_position data) 0,
                                     up_selection_start := get_or (md_selection_start data) 0,
                                     up_selection_end := get_or (md_selection_end data) 0,
                                     up_last_seen := now\<rparr>)
                           (ws_active_users workspace)\<rparr>)
                      (workspaces s)))"
  using assms
  by (auto simp: handle_text_def handle_collaboration_message_def handle_cursor_move_def Let_def
        documents_of_def fun_eq_iff update_conv'
      split: option.splits sum.splits)

text \<open>The user \<open>u\<close> moves the cursor to 4 with the selection from 4 to 6, at time 7.\<close>

theorem cursor_move_frame_witness:
  "py (handle_text example_engine 7 0 (Json cursor_msg)) = py example_engine
   \<and> documents_of (handle_text example_engine 7 0 (Json cursor_msg)) = documents_of example_engine
   \<and> map (\<lambda>(user_id, presence). (user_id, up_cursor_position presence, up_last_seen presence))
          (concat (map (\<lambda>(workspace_id, workspace). ws_active_users workspace)
             (workspaces (handle_text example_engine 7 0 (Json cursor_msg)))))
       = [(''u'', 4, 7), (''uuu'', 0, 0)]"
proof -
  have h: "md_type cursor_msg = Some ''cursor_move'' \<or> md_type cursor_msg = Some ''presence_update''"
    by (simp add: cursor_msg_def)
  have "map (\<lambda>(user_id, presence). (user_id, up_cursor_position presence, up_last_seen presence))
          (concat (map (\<lambda>(workspace_id, workspace). ws_active_users workspace)
             (workspaces (handle_text example_engine 7 0 (Json cursor_msg)))))
       = [(''u'', 4, 7), (''uuu'', 0, 0)]"
    by code_simp
  then show ?thesis using cursor_move_frame[OF h, of example_engine 7 0] by blast
qed

section \<open>Operation messages that are rejected\<close>

text \<open>
  C5, as the code has it. An operation message in which \<open>operation\<close>, \<open>type\<close>, \<open>position\<close> or
  \<open>document_id\<close> is missing, or whose type is unknown, is rejected with one log entry: the
  workspaces, and so every document's content, version, pending operations and history,
  are unchanged, no stored \<open>Operation\<close> object changes, the counter of processed operations
  stays, and nothing is sent.
\<close>

theorem malformed_operation_rejected:
  assumes "md_type data = Some ''operation''" "malformed_operation data"
  shows "workspaces (handle_text s now connection (Json data)) = workspaces s
       \<and> sent (handle_text s now connection (Json data)) = sent s
       \<and> conn_objs (handle_text s now connection (Json data)) = conn_objs s
       \<and> stat_operations_processed (handle_text s now connection (Json data))
           = stat_operations_processed s
       \<and> take (length (objs (py s))) (objs (py (handle_text s now connection (Json data))))
           = objs (py s)
       \<and> (log_entries (handle_text s now connection (Json data))
             = log_entries s @ [Error ''Error handling operation'']
          \<or> log_entries (handle_text s now connection (Json data))
             = log_entries s @ [Warning ''Operation without document_id''])"
  using assms
  by (auto simp: handle_text_def handle_collaboration_message_def handle_operation_def
        handle_operation_try_def malformed_operation_def Let_def new_Operation_def uuid4_def
      split: option.splits sum.splits prod.splits)

text \<open>An operation of the unknown type \<open>replace\<close>.\<close>

theorem malformed_operation_rejected_witness:
  "workspaces (handle_text example_engine 7 0 (Json unknown_type)) = workspaces example_engine
   \<and> sent (handle_text example_engine 7 0 (Json unknown_type)) = sent example_engine
   \<and> log_entries (handle_text example_engine 7 0 (Json unknown_type))
       = log_entries example_engine @ [Error ''Error handling operation'']"
proof -
  have h: "md_type unknown_type = Some ''operation''" "malformed_operation unknown_type"
    by (simp_all add: unknown_type_def malformed_operation_def OperationType_of_def)
  have "log_entries (handle_text example_engine 7 0 (Json unknown_type))
       = log_entries example_engine @ [Error ''Error handling operation'']"
    by code_simp
  then show ?thesis
    using malformed_operation_rejected[OF h, of example_engine 7 0] by blast
qed

text \<open>
  An insert without content has fields that do not fit its type, and is not rejected:
  \<open>content or ""\<close> reads the absent content as the empty string. The document \<open>d\<close> is
  created and gets version 1, and the operation is broadcast to the other connection.
\<close>

theorem malformed_operation_rejected_counterexample:
  "map (\<lambda>(document_id, document). (document_id, doc_content document, doc_version document))
       (documents_of example_engine ''w'') = []
   \<and> map (\<lambda>(document_id, document). (document_id, doc_content document, doc_version document))
       (documents_of (handle_text example_engine 7 0 (Json insert_without_content)) ''w'')
       = [(''d'', [], 1)]
   \<and> sent (handle_text example_engine 7 0 (Json insert_without_content))
       = sent example_engine @ [(1, Operation_message ''d'' INSERT 0 None None ''u'' 7)]"
  by code_simp

section \<open>Handlers that leave the documents alone\<close>

lemma same_documents_refl [simp]: "same_documents s s"
  by (simp add: same_documents_def)

lemma same_documents_trans: "same_documents s s1 \<Longrightarrow> same_documents s1 s2 \<Longrightarrow> same_documents s s2"
  by (simp add: same_documents_def)

lemma same_documents_workspaces:
  "workspaces s' = workspaces s \<Longrightarrow> objs (py s') = objs (py s) \<Longrightarrow> same_documents s s'"
  using documents_of_cong[of s' s] by (simp add: same_documents_def)

lemma same_documents_send_json [simp]: "same_documents s (send_json s c m)"
  by (simp add: same_documents_workspaces)

lemma same_documents_broadcast [simp]: "same_documents s (broadcast_to_workspace s w m x)"
  by (simp add: same_documents_workspaces)

lemma same_documents_fold:
  assumes "\<And>x t. same_documents t (f x t)"
  shows "same_documents s (fold f xs s)"
proof (induction xs arbitrary: s)
  case Nil
  show ?case by simp
next
  case (Cons x xs)
  show ?case using same_documents_trans[OF assms[of s x] Cons.IH[of "f x s"]] by simp
qed

lemma documents_of_update_same:
  "map_of (workspaces s) w = Some workspace \<Longrightarrow> ws_documents workspace' = ws_documents workspace \<Longrightarrow>
   workspaces s' = AList.update w workspace' (workspaces s) \<Longrightarrow> documents_of s' = documents_of s"
  by (rule ext) (simp add: documents_of_def update_conv')

lemma cleanup_connection_workspaces:
  "py (cleanup_connection s c) = py s
   \<and> (workspaces (cleanup_connection s c) = workspaces s
      \<or> (\<exists>w workspace u.
            map_of (workspaces s) w = Some workspace
            \<and> workspaces (cleanup_connection s c) =
                AList.update w
                  (workspace\<lparr>ws_active_users := AList.delete u (ws_active_users workspace)\<rparr>)
                  (workspaces s)))"
proof (cases "map_of (connections s) c")
  case None
  then show ?thesis by (simp add: cleanup_connection_def)
next
  case (Some r)
  then show ?thesis
    by (simp add: cleanup_connection_def Let_def split: option.split) blast
qed

lemma same_documents_cleanup [simp]: "same_documents s (cleanup_connection s c)"
proof -
  have p: "py (cleanup_connection s c) = py s"
    using cleanup_connection_workspaces[of s c] by simp
  have "documents_of (cleanup_connection s c) = documents_of s"
    using cleanup_connection_workspaces[of s c]
  proof (elim conjE disjE exE)
    assume "workspaces (cleanup_connection s c) = workspaces s"
    then show ?thesis by (rule documents_of_cong)
  next
    fix w workspace u
    assume m: "map_of (workspaces s) w = Some workspace"
      and e: "workspaces (cleanup_connection s c) =
                AList.update w
                  (workspace\<lparr>ws_active_users := AList.delete u (ws_active_users workspace)\<rparr>)
                  (workspaces s)"
    show ?thesis by (rule documents_of_update_same[OF m _ e]) simp
  qed
  with p show ?thesis by (simp add: same_documents_def)
qed

lemma same_documents_ping [simp]: "same_documents s (ping s now c)"
  by (simp add: ping_def same_documents_workspaces)

lemma same_documents_heartbeat [simp]: "same_documents s (heartbeat_round s now)"
  unfolding heartbeat_round_def by (rule same_documents_fold) simp

lemma same_documents_cleanup_inactive [simp]: "same_documents s (cleanup_inactive_round s now)"
  unfolding cleanup_inactive_round_def Let_def by (rule same_documents_fold) simp

lemma same_documents_sync [simp]: "same_documents s (sync_round s)"
  by (simp add: sync_round_def same_documents_fold)

lemma same_documents_public [simp]: "same_documents s (broadcast_public s u m)"
  unfolding broadcast_public_def
  by (rule same_documents_fold) (auto split: option.splits)

lemma same_documents_initialize:
  assumes "map_of (workspaces s) w = None"
  shows "same_documents s (initialize_workspace s now w)"
proof -
  have "documents_of (initialize_workspace s now w) x = documents_of s x" for x
    using assms by (simp add: initialize_workspace_def Let_def documents_of_def update_conv')
  then show ?thesis
    by (auto simp: same_documents_def initialize_workspace_def Let_def)
qed

lemma same_documents_add_user:
  assumes "add_user_to_workspace s now w u n = Inr s'"
  shows "same_documents s s'"
proof (cases "map_of (workspaces s) w")
  case None
  then show ?thesis using assms by (simp add: add_user_to_workspace_def)
next
  case (Some workspace)
  with assms have p: "py s' = py s" and e:
    "workspaces s' = AList.update w
       (workspace\<lparr>ws_active_users := AList.update u
            \<lparr>up_user_id = u, up_username = n, up_status = ONLINE,
              up_cursor_position = 0, up_selection_start = 0,
              up_selection_end = 0, up_last_seen = now,
              up_avatar_color = generate_avatar_color s u,
              up_current_document = None, up_active = True\<rparr> (ws_active_users workspace),
          ws_last_activity := now\<rparr>) (workspaces s)"
    by (auto simp: add_user_to_workspace_def Let_def)
  have "documents_of s' = documents_of s"
    by (rule documents_of_update_same[OF Some _ e]) simp
  with p show ?thesis by (simp add: same_documents_def)
qed

lemma same_documents_log [simp]: "same_documents s (s\<lparr>log_entries := l\<rparr>)"
  by (simp add: same_documents_workspaces)

lemma same_documents_register:
  "register_connection s now w b = (s1, u, c, r) \<Longrightarrow> same_documents s s1"
  by (auto simp: register_connection_def uuid4_def Let_def same_documents_workspaces)

lemma same_documents_connect [simp]: "same_documents s (handle_websocket_connect s now w b)"
proof -
  obtain s1 user_id connection_id connection
    where r: "register_connection s now w b = (s1, user_id, connection_id, connection)"
    using prod_cases4 by blast
  define s2 where "s2 = (if map_of (workspaces s1) w = None
                then initialize_workspace s1 now w else s1)"
  have a1: "same_documents s s1" using same_documents_register[OF r] .
  have a2: "same_documents s1 s2" by (simp add: s2_def same_documents_initialize)
  have a12: "same_documents s s2" using a1 a2 by (rule same_documents_trans)
  have e: "handle_websocket_connect s now w b =
     (case add_user_to_workspace s2 now w user_id ''testuser'' of
           Inl e \<Rightarrow> cleanup_connection
                      (s2\<lparr>log_entries := log_entries s2 @ [Error ''WebSocket error'']\<rparr>)
                      connection_id
         | Inr s3 \<Rightarrow>
             (case send_initial_state s3 connection w of
                Inl e \<Rightarrow> cleanup_connection
                           (s3\<lparr>log_entries := log_entries s3 @ [Error ''WebSocket error'']\<rparr>)
                           connection_id
              | Inr s4 \<Rightarrow>
                  (let s5 = broadcast_user_joined s4 w user_id ''testuser''
                   in s5\<lparr>stat_total_connections := stat_total_connections s5 + 1,
                         log_entries := log_entries s5 @
                           [Info ''User connected to workspace'']\<rparr>)))"
    unfolding handle_websocket_connect_def r s2_def by (simp only: prod.case Let_def)
  show ?thesis
  proof (cases "add_user_to_workspace s2 now w user_id ''testuser''")
    case (Inl err)
    have "same_documents s2 (cleanup_connection
                      (s2\<lparr>log_entries := log_entries s2 @ [Error ''WebSocket error'']\<rparr>)
                      connection_id)"
      by (rule same_documents_trans[OF same_documents_log same_documents_cleanup])
    then show ?thesis unfolding e Inl sum.case using a12 by (auto intro: same_documents_trans)
  next
    case (Inr s3)
    note add = this
    have a3: "same_documents s s3"
      using same_documents_add_user[OF Inr] a12 by (auto intro: same_documents_trans)
    show ?thesis
    proof (cases "send_initial_state s3 connection w")
      case (Inl err)
      have "same_documents s3 (cleanup_connection
                      (s3\<lparr>log_entries := log_entries s3 @ [Error ''WebSocket error'']\<rparr>)
                      connection_id)"
        by (rule same_documents_trans[OF same_documents_log same_documents_cleanup])
      then show ?thesis unfolding e add sum.case Inl using a3
        by (auto intro: same_documents_trans)
    next
      case (Inr s4)
      then have "same_documents s3 s4"
        by (auto simp: send_initial_state_def split: option.splits)
      then have a4: "same_documents s s4" using a3 by (auto intro: same_documents_trans)
      have "same_documents s4 (let s5 = broadcast_user_joined s4 w user_id ''testuser''
                   in s5\<lparr>stat_total_connections := stat_total_connections s5 + 1,
                         log_entries := log_entries s5 @
                           [Info ''User connected to workspace'']\<rparr>)"
        by (simp add: Let_def broadcast_user_joined_def same_documents_workspaces)
      then show ?thesis unfolding e add sum.case Inr using a4
        by (auto intro: same_documents_trans)
    qed
  qed
qed

section \<open>What \<open>_handle_operation\<close> does to the documents\<close>

lemma rebase_document:
  "apply_operational_transformation w document operation = (w', document', t) \<Longrightarrow>
   document' = document\<lparr>doc_pending_operations := doc_pending_operations document'\<rparr>"
  by (auto simp: apply_operational_transformation_def Let_def split: prod.splits)

lemma rebase_fields:
  "apply_operational_transformation w document operation = (w', document', t) \<Longrightarrow>
   doc_version document' = doc_version document
   \<and> doc_content document' = doc_content document
   \<and> doc_operations document' = doc_operations document"
  by (auto simp: apply_operational_transformation_def Let_def split: prod.splits)

lemma handle_operation_malformed:
  "malformed_operation data \<Longrightarrow>
   workspaces (handle_operation s now connection data) = workspaces s
   \<and> take (length (objs (py s))) (objs (py (handle_operation s now connection data))) = objs (py s)"
  by (auto simp: handle_operation_def handle_operation_try_def malformed_operation_def Let_def
        new_Operation_def uuid4_def split: option.splits)

lemma handle_operation_no_workspace:
  "map_of (workspaces s) (conn_workspace_id (conn_objs s ! connection)) = None \<Longrightarrow>
   workspaces (handle_operation s now connection data) = workspaces s
   \<and> take (length (objs (py s))) (objs (py (handle_operation s now connection data))) = objs (py s)"
  by (auto simp: handle_operation_def handle_operation_try_def Let_def
        new_Operation_def uuid4_def split: option.splits)

lemma handle_operation_accepted:
  assumes nm: "\<not> malformed_operation data"
    and ws: "map_of (workspaces s) (conn_workspace_id (conn_objs s ! connection)) = Some workspace"
  shows "\<exists>ty pos c l w1 w2 document1 t.
     new_Operation (py s) ty pos c l now (conn_user_id (conn_objs s ! connection))
       = (w1, length (objs (py s)))
     \<and> apply_operational_transformation w1
         (case map_of (ws_documents workspace) (or_empty (md_document_id data)) of
            None \<Rightarrow> new_DocumentState (or_empty (md_document_id data)) now
          | Some d \<Rightarrow> d)
         (length (objs (py s))) = (w2, document1, t)
     \<and> py (handle_operation s now connection data) = w2
     \<and> workspaces (handle_operation s now connection data) =
         AList.update (conn_workspace_id (conn_objs s ! connection))
           (workspace\<lparr>ws_documents :=
              AList.update (or_empty (md_document_id data))
                (document1\<lparr>doc_content := apply_operation (doc_content document1) (objs w2 ! t),
                   doc_version := doc_version document1 + 1,
                   doc_operations := deque_append (doc_operations document1) t,
                   doc_last_modified := now\<rparr>)
                (ws_documents workspace)\<rparr>)
           (workspaces s)
     \<and> (\<exists>od v. md_operation data = Some od \<and> od_type od = Some v
            \<and> OperationType_of v = Some ty \<and> od_position od = Some pos
            \<and> c = od_content od \<and> l = od_length od)"
proof -
  from nm obtain od v ty pos d where
    f: "md_operation data = Some od" "od_type od = Some v" "OperationType_of v = Some ty"
       "od_position od = Some pos" "md_document_id data = Some d" "d \<noteq> []"
    by (auto simp: malformed_operation_def split: option.splits)
  obtain w1 where n: "new_Operation (py s) ty pos (od_content od) (od_length od) now
      (conn_user_id (conn_objs s ! connection)) = (w1, length (objs (py s)))"
    by (simp add: new_Operation_def uuid4_def)
  obtain w2 document1 t where a: "apply_operational_transformation w1
         (case map_of (ws_documents workspace) d of
            None \<Rightarrow> new_DocumentState d now | Some d \<Rightarrow> d)
         (length (objs (py s))) = (w2, document1, t)"
    using prod_cases3 by blast
  show ?thesis
    apply (rule exI[of _ ty], rule exI[of _ pos], rule exI[of _ "od_content od"],
           rule exI[of _ "od_length od"], rule exI[of _ w1], rule exI[of _ w2],
           rule exI[of _ document1], rule exI[of _ t])
    using f n a ws
    by (simp add: handle_operation_def handle_operation_try_def Let_def or_empty_def
          broadcast_operation_def cong: option.case_cong)
qed


lemma handle_cursor_move_documents:
  assumes "handle_cursor_move s now connection data = Inr s' \<or>
           handle_cursor_move s now connection data = Inl (e, s')"
  shows "same_documents s s'"
proof (cases "map_of (workspaces s) (conn_workspace_id (conn_objs s ! connection))")
  case None
  then show ?thesis using assms by (auto simp: handle_cursor_move_def Let_def)
next
  case (Some workspace)
  note ws = this
  show ?thesis
  proof (cases "map_of (ws_active_users workspace) (conn_user_id (conn_objs s ! connection))")
    case None
    then show ?thesis using assms ws by (auto simp: handle_cursor_move_def Let_def)
  next
    case (Some presence)
    define s1 where "s1 = s\<lparr>workspaces := AList.update (conn_workspace_id (conn_objs s ! connection))
                     (workspace\<lparr>ws_active_users :=
                        AList.update (conn_user_id (conn_objs s ! connection))
                          (presence\<lparr>up_cursor_position := get_or (md_position data) 0,
                             up_selection_start := get_or (md_selection_start data) 0,
                             up_selection_end := get_or (md_selection_end data) 0,
                             up_last_seen := now\<rparr>)
                          (ws_active_users workspace)\<rparr>)
                     (workspaces s)\<rparr>"
    have "documents_of s1 = documents_of s"
      by (rule documents_of_update_same[OF ws]) (simp_all add: s1_def)
    then have a: "same_documents s s1" by (simp add: same_documents_def s1_def)
    have "\<exists>m x. s' = broadcast_to_workspace s1 (conn_workspace_id (conn_objs s ! connection)) m x"
      using assms ws Some by (auto simp: handle_cursor_move_def Let_def s1_def)
    then show ?thesis using a same_documents_trans[OF a same_documents_broadcast] by auto
  qed
qed

lemma handle_text_other_documents:
  assumes "\<And>data. message = Json data \<Longrightarrow> md_type data \<noteq> Some ''operation''"
  shows "same_documents s (handle_text s now connection message)"
proof (cases message)
  case (Json data)
  with assms have n: "md_type data \<noteq> Some ''operation''" by simp
  show ?thesis
  proof (cases "md_type data = Some ''cursor_move''")
    case True
    show ?thesis
    proof (cases "handle_cursor_move s now connection data")
      case (Inl r)
      obtain e s' where r: "r = (e, s')" by (cases r)
      have "same_documents s s'" using handle_cursor_move_documents Inl r by blast
      then have "same_documents s (s'\<lparr>log_entries := log_entries s' @ [Error ''Error handling message'']\<rparr>)"
        by (rule same_documents_trans) simp
      then show ?thesis using Json True Inl r
        by (simp add: handle_text_def handle_collaboration_message_def)
    next
      case (Inr s')
      have "same_documents s s'" using handle_cursor_move_documents Inr by blast
      then show ?thesis using Json True Inr
        by (simp add: handle_text_def handle_collaboration_message_def)
    qed
  next
    case False
    then show ?thesis using Json n
      by (simp add: handle_text_def handle_collaboration_message_def Let_def
            same_documents_workspaces)
  qed
qed (simp_all add: handle_text_def same_documents_workspaces)

lemma version_at_cong: "documents_of s' = documents_of s \<Longrightarrow> version_at s' = version_at s"
  by (rule ext, rule ext) (simp add: version_at_def)

lemma step_other_documents:
  assumes "\<forall>connection data. e = Receive connection (Json data) \<longrightarrow> md_type data \<noteq> Some ''operation''"
  shows "same_documents s (step s now e)"
proof (cases e)
  case (Receive connection message)
  with assms have "md_type data \<noteq> Some ''operation''" if "message = Json data" for data
    using that by auto
  then show ?thesis using Receive
    by (simp add: handle_text_other_documents)
next
  case (Websocket_breaks connection)
  then show ?thesis by (simp add: same_documents_workspaces)
qed (simp_all add: broadcast_note_created_def broadcast_note_updated_def broadcast_update_def)


section \<open>The version counter\<close>

lemma step_operation:
  "md_type data = Some ''operation'' \<Longrightarrow>
   step s now (Receive connection (Json data)) = handle_operation s now connection data"
  by (simp add: handle_text_def handle_collaboration_message_def)

lemma accepted_operation_None:
  "\<not> (\<exists>connection data. e = Receive connection (Json data) \<and> md_type data = Some ''operation'')
   \<Longrightarrow> accepted_operation s e = None"
  by (cases e) (auto simp: accepted_operation_def split: inbound.splits)

lemma version_unchanged:
  assumes "\<not> (\<exists>connection data. e = Receive connection (Json data) \<and> md_type data = Some ''operation'')"
  shows "version_at (step s now e) = version_at s"
proof -
  have "same_documents s (step s now e)"
    by (rule step_other_documents) (use assms in blast)
  then show ?thesis using version_at_cong[of "step s now e" s] by (simp add: same_documents_def)
qed

text \<open>
  C7. Whatever the event, the version of every document of every workspace afterwards is
  its version before, plus 1 exactly when the event is an operation message that is
  applied to this document. So the version goes up by 1 with each applied operation, never
  goes down, and is changed by nothing else: not by a rejected operation, a cursor move,
  a presence update, a ping, a connect or disconnect, a broadcast or a round of a
  background task. A document that does not exist yet counts with the version 0 it is
  created with.
\<close>

theorem version_counter:
  "version_at (step s now e) w d
     = version_at s w d + (if accepted_operation s e = Some (w, d) then 1 else 0)"
proof (cases "\<exists>connection data. e = Receive connection (Json data) \<and> md_type data = Some ''operation''")
  case False
  then show ?thesis
    using version_unchanged[of e s now] accepted_operation_None[of e s] by simp
next
  case True
  then obtain connection data where e: "e = Receive connection (Json data)"
    and t: "md_type data = Some ''operation''" by auto
  have st: "step s now e = handle_operation s now connection data"
    unfolding e using t by (rule step_operation)
  let ?wid = "conn_workspace_id (conn_objs s ! connection)"
  let ?did = "or_empty (md_document_id data)"
  show ?thesis
  proof (cases "malformed_operation data \<or> map_of (workspaces s) ?wid = None")
    case True
    then have "workspaces (step s now e) = workspaces s"
      unfolding st using handle_operation_malformed handle_operation_no_workspace by blast
    then have "documents_of (step s now e) = documents_of s" by (rule documents_of_cong)
    then have "version_at (step s now e) = version_at s" by (rule version_at_cong)
    moreover have "accepted_operation s e = None"
      using True e by (auto simp: accepted_operation_def)
    ultimately show ?thesis by simp
  next
    case False
    then obtain workspace where nm: "\<not> malformed_operation data"
      and ws: "map_of (workspaces s) ?wid = Some workspace" by auto
    have acc: "accepted_operation s e = Some (?wid, ?did)"
      using nm ws e t by (simp add: accepted_operation_def)
    from handle_operation_accepted[OF nm ws, of now]
    obtain w1 w2 document1 t' where
      a: "apply_operational_transformation w1
           (case map_of (ws_documents workspace) ?did of
              None \<Rightarrow> new_DocumentState ?did now | Some d \<Rightarrow> d)
           (length (objs (py s))) = (w2, document1, t')"
      and u: "workspaces (handle_operation s now connection data) =
         AList.update ?wid
           (workspace\<lparr>ws_documents :=
              AList.update ?did
                (document1\<lparr>doc_content := apply_operation (doc_content document1) (objs w2 ! t'),
                   doc_version := doc_version document1 + 1,
                   doc_operations := deque_append (doc_operations document1) t',
                   doc_last_modified := now\<rparr>)
                (ws_documents workspace)\<rparr>)
           (workspaces s)"
      by (elim exE conjE)
    have v1: "doc_version document1 = version_at s ?wid ?did"
      using rebase_fields[OF a] ws
      by (cases "map_of (ws_documents workspace) ?did")
         (simp_all add: version_at_def documents_of_def new_DocumentState_def)
    have d: "documents_of (step s now e) x =
               (if x = ?wid then AList.update ?did
                (document1\<lparr>doc_content := apply_operation (doc_content document1) (objs w2 ! t'),
                   doc_version := doc_version document1 + 1,
                   doc_operations := deque_append (doc_operations document1) t',
                   doc_last_modified := now\<rparr>)
                (ws_documents workspace) else documents_of s x)" for x
      unfolding st by (simp add: documents_of_def u update_conv')
    have o: "documents_of s ?wid = ws_documents workspace"
      using ws by (simp add: documents_of_def)
    show ?thesis
    proof (cases "w = ?wid")
      case False
      then show ?thesis using acc by (simp add: version_at_def d)
    next
      case True
      then show ?thesis using acc v1 o
        by (simp add: version_at_def d update_conv')
    qed
  qed
qed

text \<open>An insert into the new document \<open>d\<close> of workspace \<open>w\<close>, and a cursor move.\<close>

theorem version_counter_witness:
  "version_at (step example_engine 7 (Receive 0 (Json insert_without_content))) ''w'' ''d'' = 1
   \<and> version_at (step example_engine 7 (Receive 0 (Json cursor_msg))) ''w'' ''d'' = 0"
proof -
  have a: "accepted_operation example_engine (Receive 0 (Json insert_without_content))
             = Some (''w'', ''d'')"
    by code_simp
  have b: "accepted_operation example_engine (Receive 0 (Json cursor_msg)) = None"
    by code_simp
  have c: "version_at example_engine ''w'' ''d'' = 0"
    by code_simp
  show ?thesis
    using version_counter[of example_engine 7 "Receive 0 (Json insert_without_content)" "''w''" "''d''"]
          version_counter[of example_engine 7 "Receive 0 (Json cursor_msg)" "''w''" "''d''"]
    by (simp add: a b c)
qed

section \<open>Content and history\<close>

lemma replay_prefix:
  assumes "\<forall>r \<in> set (doc_operations document). r < length os" "take (length os) os' = os"
  shows "replay os' document = replay os document"
proof -
  have "os' ! r = os ! r" if "r < length os" for r
    using take_prefix_nth[OF assms(2) that] .
  then show ?thesis unfolding replay_def
    using assms(1) by (intro foldl_cong) auto
qed

lemma doc_ok_mono:
  assumes "doc_ok os document" "take (length os) os' = os"
  shows "doc_ok os' document"
proof -
  have l: "length os \<le> length os'" using take_prefix_length[OF assms(2)] by simp
  have "replay os' document = replay os document"
    using assms by (intro replay_prefix) (auto simp: doc_ok_def)
  moreover have "r < length os'" if "r < length os" for r using that l by simp
  ultimately show ?thesis using assms(1) unfolding doc_ok_def by auto
qed

lemma doc_ok_new: "doc_ok os (new_DocumentState d now)"
  by (simp add: doc_ok_def new_DocumentState_def replay_def)

lemma deque_append_set: "set (deque_append xs x) \<subseteq> insert x (set xs)"
  by (auto simp: deque_append_def Let_def dest: in_set_dropD)

lemma deque_append_length:
  "length xs \<le> 1000 \<Longrightarrow> int (length (deque_append xs x)) = min (int (length xs) + 1) 1000"
  by (auto simp: deque_append_def Let_def)

lemma deque_append_short: "length xs < 1000 \<Longrightarrow> deque_append xs x = xs @ [x]"
  by (simp add: deque_append_def Let_def)

lemma rebase_frame:
  assumes "\<forall>r \<in> set (doc_pending_operations document). r < length (objs w)"
    and "operation < length (objs w)"
    and a: "apply_operational_transformation w document operation = (w', document', t)"
  shows "take (length (objs w)) (objs w') = objs w \<and> t < length (objs w')
       \<and> set (doc_pending_operations document') \<subseteq> insert t (set (doc_pending_operations document))"
proof -
  obtain w1 t1 where f: "fold (\<lambda>pending_op (w, transformed_op).
                    if op_user_id (objs w ! pending_op) \<noteq> op_user_id (objs w ! operation) then
                      (let (w', t, _) = transform_operation w transformed_op pending_op
                       in (w', t))
                    else (w, transformed_op)) (doc_pending_operations document) (w, operation) = (w1, t1)"
    by fastforce
  note l = rebase_loop[OF assms(1) assms(2) assms(2) f]
  from a f have e: "w' = w1" "t = t1"
    "doc_pending_operations document' =
        (if length (doc_pending_operations document @ [t1]) > 10
         then drop (length (doc_pending_operations document @ [t1]) - 10) (doc_pending_operations document @ [t1])
         else doc_pending_operations document @ [t1])"
    by (auto simp: apply_operational_transformation_def Let_def)
  have "set (doc_pending_operations document') \<subseteq> insert t (set (doc_pending_operations document))"
    unfolding e by (auto dest: in_set_dropD)
  then show ?thesis using l e by simp
qed

lemma doc_ok_step:
  assumes ok: "doc_ok (objs w) document" and v: "operation < length (objs w)"
    and a: "apply_operational_transformation w document operation = (w', document1, t)"
  shows "doc_ok (objs w')
           (document1\<lparr>doc_content := apply_operation (doc_content document1) (objs w' ! t),
              doc_version := doc_version document1 + 1,
              doc_operations := deque_append (doc_operations document1) t,
              doc_last_modified := now\<rparr>)"
proof -
  from ok have p: "\<forall>r \<in> set (doc_pending_operations document). r < length (objs w)"
    by (simp add: doc_ok_def)
  note fr = rebase_frame[OF p v a]
  note fl = rebase_fields[OF a]
  have pre: "take (length (objs w)) (objs w') = objs w" using fr by simp
  have ok': "doc_ok (objs w') document" using doc_ok_mono[OF ok pre] .
  have len: "length (doc_operations document) \<le> 1000"
    using ok unfolding doc_ok_def by linarith
  have r1: "\<forall>r \<in> set (deque_append (doc_operations document) t) \<union> set (doc_pending_operations document1).
              r < length (objs w')"
    using ok' fr deque_append_set[of "doc_operations document" t] by (auto simp: doc_ok_def)
  have r2: "int (length (deque_append (doc_operations document) t)) = min (doc_version document + 1) 1000"
    using deque_append_length[OF len, of t] ok by (auto simp: doc_ok_def)
  have r3: "apply_operation (doc_content document) (objs w' ! t)
              = foldl (\<lambda>content r. apply_operation content (objs w' ! r)) []
                  (deque_append (doc_operations document) t)"
    if "doc_version document + 1 \<le> 1000"
  proof -
    from that ok have "length (doc_operations document) < 1000" by (simp add: doc_ok_def)
    then have "deque_append (doc_operations document) t = doc_operations document @ [t]"
      by (rule deque_append_short)
    moreover have "doc_content document = replay (objs w') document"
      using ok' that by (simp add: doc_ok_def)
    ultimately show ?thesis by (simp add: replay_def)
  qed
  show ?thesis using r1 r2 r3 fl by (simp add: doc_ok_def replay_def)
qed

lemma all_docs_ok_same:
  "same_documents s s' \<Longrightarrow> all_docs_ok s \<Longrightarrow> all_docs_ok s'"
  by (simp add: same_documents_def all_docs_ok_def)

lemma all_docs_ok_prefix:
  assumes "all_docs_ok s" "workspaces s' = workspaces s"
    "take (length (objs (py s))) (objs (py s')) = objs (py s)"
  shows "all_docs_ok s'"
  using assms documents_of_cong[OF assms(2)] doc_ok_mono
  unfolding all_docs_ok_def by metis

lemma all_docs_ok_operation:
  assumes ok: "all_docs_ok s"
  shows "all_docs_ok (handle_operation s now connection data)"
proof (cases "malformed_operation data
              \<or> map_of (workspaces s) (conn_workspace_id (conn_objs s ! connection)) = None")
  case True
  then have "workspaces (handle_operation s now connection data) = workspaces s
     \<and> take (length (objs (py s))) (objs (py (handle_operation s now connection data))) = objs (py s)"
    using handle_operation_malformed handle_operation_no_workspace by blast
  then show ?thesis using all_docs_ok_prefix[OF ok] by blast
next
  case False
  let ?wid = "conn_workspace_id (conn_objs s ! connection)"
  let ?did = "or_empty (md_document_id data)"
  let ?s' = "handle_operation s now connection data"
  from False obtain workspace where nm: "\<not> malformed_operation data"
    and ws: "map_of (workspaces s) ?wid = Some workspace" by auto
  let ?doc0 = "case map_of (ws_documents workspace) ?did of
              None \<Rightarrow> new_DocumentState ?did now | Some d \<Rightarrow> d"
  from handle_operation_accepted[OF nm ws, of now]
  obtain ty pos c l w1 w2 document1 t where
    n: "new_Operation (py s) ty pos c l now (conn_user_id (conn_objs s ! connection))
          = (w1, length (objs (py s)))"
    and a: "apply_operational_transformation w1 ?doc0 (length (objs (py s))) = (w2, document1, t)"
    and p: "py ?s' = w2"
    and u: "workspaces ?s' =
         AList.update ?wid
           (workspace\<lparr>ws_documents :=
              AList.update ?did
                (document1\<lparr>doc_content := apply_operation (doc_content document1) (objs w2 ! t),
                   doc_version := doc_version document1 + 1,
                   doc_operations := deque_append (doc_operations document1) t,
                   doc_last_modified := now\<rparr>)
                (ws_documents workspace)\<rparr>)
           (workspaces s)"
    by (elim exE conjE)
  let ?doc2 = "document1\<lparr>doc_content := apply_operation (doc_content document1) (objs w2 ! t),
                   doc_version := doc_version document1 + 1,
                   doc_operations := deque_append (doc_operations document1) t,
                   doc_last_modified := now\<rparr>"
  have w1: "objs w1 = objs (py s) @ [objs w1 ! length (objs (py s))]"
    using n by (auto simp: new_Operation_def uuid4_def)
  then have pre1: "take (length (objs (py s))) (objs w1) = objs (py s)"
    by (metis append_eq_conv_conj)
  have v: "length (objs (py s)) < length (objs w1)"
    using w1 by (metis length_append_singleton lessI)
  have ok0: "doc_ok (objs (py s)) ?doc0"
  proof (cases "map_of (ws_documents workspace) ?did")
    case None
    then show ?thesis by (simp add: doc_ok_new)
  next
    case (Some d0)
    then have "map_of (documents_of s ?wid) ?did = Some d0" using ws by (simp add: documents_of_def)
    then show ?thesis using ok Some by (simp add: all_docs_ok_def)
  qed
  have ok1: "doc_ok (objs w1) ?doc0" using doc_ok_mono[OF ok0 pre1] .
  have ok2: "doc_ok (objs w2) ?doc2" using doc_ok_step[OF ok1 v a] .
  have pre2: "take (length (objs w1)) (objs w2) = objs w1"
    using rebase_frame[OF _ v a] ok1 by (simp add: doc_ok_def)
  have pre: "take (length (objs (py s))) (objs w2) = objs (py s)"
  proof -
    have "length (objs (py s)) \<le> length (objs w1)" using v by simp
    then have "take (length (objs (py s))) (objs w2)
        = take (length (objs (py s))) (take (length (objs w1)) (objs w2))"
      by (simp add: min_def)
    then show ?thesis using pre1 pre2 by simp
  qed
  have d: "documents_of ?s' x =
             (if x = ?wid then AList.update ?did ?doc2 (ws_documents workspace)
              else documents_of s x)" for x
    by (simp add: documents_of_def u update_conv')
  have o: "documents_of s ?wid = ws_documents workspace"
    using ws by (simp add: documents_of_def)
  show ?thesis
    unfolding all_docs_ok_def
  proof (intro allI impI)
    fix x y document
    assume m: "map_of (documents_of ?s' x) y = Some document"
    show "doc_ok (objs (py ?s')) document"
    proof (cases "x = ?wid \<and> y = ?did")
      case True
      then have "document = ?doc2" using m by (simp add: d update_conv')
      then show ?thesis using ok2 p by simp
    next
      case False
      then have "map_of (documents_of s x) y = Some document"
        using m o by (auto simp: d update_conv' split: if_splits)
      then have "doc_ok (objs (py s)) document" using ok by (simp add: all_docs_ok_def)
      then show ?thesis using doc_ok_mono pre p by simp
    qed
  qed
qed

lemma all_docs_ok_step:
  assumes "all_docs_ok s"
  shows "all_docs_ok (step s now e)"
proof (cases "\<exists>connection data. e = Receive connection (Json data) \<and> md_type data = Some ''operation''")
  case True
  then show ?thesis using all_docs_ok_operation[OF assms] step_operation by auto
next
  case False
  then have "same_documents s (step s now e)" by (intro step_other_documents) blast
  then show ?thesis using assms by (rule all_docs_ok_same)
qed

lemma all_docs_ok_init: "all_docs_ok (init_engine src h)"
  by (simp add: all_docs_ok_def documents_of_def init_engine_def)

lemma reachable_docs_ok: "reachable s \<Longrightarrow> all_docs_ok s"
  by (induction rule: reachable.induct) (simp_all add: all_docs_ok_init all_docs_ok_step)

section \<open>Connection objects under sending\<close>

lemma same_connections_refl [simp]: "same_connections s s"
  by (simp add: same_connections_def)

lemma same_connections_trans:
  "same_connections s s1 \<Longrightarrow> same_connections s1 s2 \<Longrightarrow> same_connections s s2"
  by (simp add: same_connections_def)

lemma same_connections_eq: "conn_objs s' = conn_objs s \<Longrightarrow> same_connections s s'"
  by (simp add: same_connections_def)

lemma same_connections_send_json: "same_connections s (send_json s c m)"
  by (cases "c < length (conn_objs s)")
     (auto simp: same_connections_def send_json_def Let_def nth_list_update list_update_beyond)

lemma same_connections_broadcast: "same_connections s (broadcast_to_workspace s w m x)"
proof -
  have "same_connections s0 (fold (\<lambda>conn_id s.
        case map_of (connections s) conn_id of
          None \<Rightarrow> s
        | Some connection \<Rightarrow>
            if conn_is_active (conn_objs s ! connection) then
              (if x \<noteq> None \<and> x \<noteq> Some []
                  \<and> Some (conn_user_id (conn_objs s ! connection)) = x
               then s
               else (let s1 = send_json s connection m
                     in s1\<lparr>stat_messages_sent := stat_messages_sent s1 + 1\<rparr>))
            else s) ids s0)" for ids s0
  proof (induction ids arbitrary: s0)
    case Nil
    show ?case by simp
  next
    case (Cons i ids)
    have "same_connections s0 (case map_of (connections s0) i of
          None \<Rightarrow> s0
        | Some connection \<Rightarrow>
            if conn_is_active (conn_objs s0 ! connection) then
              (if x \<noteq> None \<and> x \<noteq> Some []
                  \<and> Some (conn_user_id (conn_objs s0 ! connection)) = x
               then s0
               else (let s1 = send_json s0 connection m
                     in s1\<lparr>stat_messages_sent := stat_messages_sent s1 + 1\<rparr>))
            else s0)"
      using same_connections_send_json[of s0 _ m]
      by (auto simp: Let_def same_connections_def split: option.splits)
    then show ?case using Cons.IH same_connections_trans by fastforce
  qed
  then show ?thesis by (simp add: broadcast_to_workspace_def)
qed

lemma handle_operation_connections:
  "same_connections s (handle_operation s now connection data)"
proof -
  have "same_connections s s'"
    if "handle_operation_try s now connection data = Inr s'
        \<or> handle_operation_try s now connection data = Inl (e, s')" for e s'
    using that same_connections_broadcast
    by (auto simp: handle_operation_try_def Let_def broadcast_operation_def
          same_connections_def split: option.splits prod.splits if_splits)
  then show ?thesis
    by (cases "handle_operation_try s now connection data")
       (auto simp: handle_operation_def same_connections_def split: prod.splits)
qed

lemma rebase_same_user:
  assumes "\<forall>r \<in> set (doc_pending_operations document).
             op_user_id (objs w ! r) = op_user_id (objs w ! operation)"
  shows "apply_operational_transformation w document operation =
           (w, document\<lparr>doc_pending_operations :=
                 (if length (doc_pending_operations document @ [operation]) > 10
                  then drop (length (doc_pending_operations document @ [operation]) - 10)
                         (doc_pending_operations document @ [operation])
                  else doc_pending_operations document @ [operation])\<rparr>, operation)"
proof -
  have "fold (\<lambda>pending_op (w, transformed_op).
                    if op_user_id (objs w ! pending_op) \<noteq> op_user_id (objs w ! operation) then
                      (let (w', t, _) = transform_operation w transformed_op pending_op
                       in (w', t))
                    else (w, transformed_op)) ps (w, operation) = (w, operation)"
    if "\<forall>r \<in> set ps. op_user_id (objs w ! r) = op_user_id (objs w ! operation)" for ps
    using that by (induction ps) auto
  then show ?thesis using assms
    by (simp add: apply_operational_transformation_def Let_def)
qed

text \<open>
  C8, as the code has it. In every reachable state, a document to which no more than 1000
  operations were applied (its version is at most 1000, so the history has dropped
  nothing) has as content the fold of \<open>apply_operation\<close> over its history, in the order of
  application, from the empty string.
\<close>

theorem content_is_replayed_history:
  assumes "reachable s" "map_of (documents_of s w) d = Some document"
    "doc_version document \<le> 1000"
  shows "doc_content document = replay (objs (py s)) document"
  using reachable_docs_ok[OF assms(1)] assms(2,3)
  by (simp add: all_docs_ok_def doc_ok_def)

lemma reachable_after_insert: "reachable after_insert"
proof -
  have "reachable one_user"
    unfolding one_user_def by (rule reachable.step[OF reachable.init]) simp
  moreover have "enabled one_user (Receive 0 (Json (operation_msg ''insert'' 0 (Some ''a'') None)))"
    by code_simp
  ultimately show ?thesis unfolding after_insert_def by (rule reachable.step)
qed

lemma retained_0: "retained 0 after_insert"
proof -
  have "0 < length (conn_objs after_insert)
      \<and> conn_workspace_id (conn_objs after_insert ! 0) = ''w'' \<and> conn_user_id (conn_objs after_insert ! 0) = ''u''
      \<and> (case map_of (documents_of after_insert ''w'') ''d'' of
            None \<Rightarrow> False
          | Some document \<Rightarrow>
              doc_content document = ''a''
              \<and> (\<forall>r \<in> set (doc_pending_operations document).
                     r < length (objs (py after_insert)) \<and> op_user_id (objs (py after_insert) ! r) = ''u'')
              \<and> length (doc_operations document) = 1
              \<and> tl (doc_operations document) = [])"
    by code_simp
  then show ?thesis using reachable_after_insert
    by (auto simp: retained_def split: option.splits)
qed

lemma retained_step:
  assumes r: "retained n s"
  shows "retained (Suc n) (retain_round s)"
proof -
  let ?data = "operation_msg ''retain'' 0 None None"
  let ?s' = "handle_operation s 0 0 ?data"
  have st: "retain_round s = ?s'"
    unfolding retain_round_def by (rule step_operation) (simp add: operation_msg_def)
  from r have reach: "reachable s" and c0: "0 < length (conn_objs s)"
    and cw: "conn_workspace_id (conn_objs s ! 0) = ''w''"
    and cu: "conn_user_id (conn_objs s ! 0) = ''u''"
    by (simp_all add: retained_def)
  from r obtain document where m: "map_of (documents_of s ''w'') ''d'' = Some document"
    and cont: "doc_content document = ''a''"
    and pend: "\<forall>r \<in> set (doc_pending_operations document).
                     r < length (objs (py s)) \<and> op_user_id (objs (py s) ! r) = ''u''"
    and len: "length (doc_operations document) = min (Suc n) 1000"
    and tlr: "\<forall>r \<in> set (tl (doc_operations document)).
                     r < length (objs (py s)) \<and> op_type (objs (py s) ! r) = RETAIN"
    and allr: "1000 \<le> n \<longrightarrow>
                   (\<forall>r \<in> set (doc_operations document).
                     r < length (objs (py s)) \<and> op_type (objs (py s) ! r) = RETAIN)"
    by (auto simp: retained_def split: option.splits)
  from m obtain workspace where ws: "map_of (workspaces s) ''w'' = Some workspace"
    and wd: "map_of (ws_documents workspace) ''d'' = Some document"
    by (auto simp: documents_of_def split: option.splits)
  have nm: "\<not> malformed_operation ?data"
    by (simp add: malformed_operation_def operation_msg_def OperationType_of_def)
  have ws': "map_of (workspaces s) (conn_workspace_id (conn_objs s ! 0)) = Some workspace"
    using ws cw by simp
  have did: "or_empty (md_document_id ?data) = ''d''"
    by (simp add: operation_msg_def or_empty_def)
  from handle_operation_accepted[OF nm ws', of 0]
  obtain ty pos c l w1 w2 document1 t od v where
    n: "new_Operation (py s) ty pos c l 0 (conn_user_id (conn_objs s ! 0))
          = (w1, length (objs (py s)))"
    and a: "apply_operational_transformation w1
              (case map_of (ws_documents workspace) (or_empty (md_document_id ?data)) of
                 None \<Rightarrow> new_DocumentState (or_empty (md_document_id ?data)) 0
               | Some d \<Rightarrow> d)
              (length (objs (py s))) = (w2, document1, t)"
    and p: "py ?s' = w2"
    and u: "workspaces ?s' =
         AList.update (conn_workspace_id (conn_objs s ! 0))
           (workspace\<lparr>ws_documents :=
              AList.update (or_empty (md_document_id ?data))
                (document1\<lparr>doc_content := apply_operation (doc_content document1) (objs w2 ! t),
                   doc_version := doc_version document1 + 1,
                   doc_operations := deque_append (doc_operations document1) t,
                   doc_last_modified := 0\<rparr>)
                (ws_documents workspace)\<rparr>)
           (workspaces s)"
    and parsed: "md_operation ?data = Some od" "od_type od = Some v"
       "OperationType_of v = Some ty"
    by (elim exE conjE)
  have ty: "ty = RETAIN"
    using parsed by (auto simp: operation_msg_def OperationType_of_def)
  let ?k = "length (objs (py s))"
  have o1: "objs w1 = objs (py s) @ [objs w1 ! ?k]"
    and rtype: "op_type (objs w1 ! ?k) = RETAIN" and usr: "op_user_id (objs w1 ! ?k) = ''u''"
    using n ty cu by (auto simp: new_Operation_def uuid4_def)
  have old: "objs w1 ! r = objs (py s) ! r" if "r < ?k" for r
    using o1 that by (metis nth_append)
  have lw1: "length (objs w1) = Suc ?k"
    using o1 by (metis length_append_singleton)
  have a': "apply_operational_transformation w1 document ?k = (w2, document1, t)"
    using a wd did by simp
  have same: "\<forall>r \<in> set (doc_pending_operations document).
             op_user_id (objs w1 ! r) = op_user_id (objs w1 ! ?k)"
    using pend old usr by simp
  from rebase_same_user[OF same] a'
  have w2: "w2 = w1" and t: "t = ?k"
    and pd: "doc_pending_operations document1 =
                 (if length (doc_pending_operations document @ [?k]) > 10
                  then drop (length (doc_pending_operations document @ [?k]) - 10)
                         (doc_pending_operations document @ [?k])
                  else doc_pending_operations document @ [?k])"
    by auto
  note fl = rebase_fields[OF a']
  let ?doc2 = "document1\<lparr>doc_content := apply_operation (doc_content document1) (objs w2 ! t),
                   doc_version := doc_version document1 + 1,
                   doc_operations := deque_append (doc_operations document1) t,
                   doc_last_modified := 0\<rparr>"
  have m': "map_of (documents_of ?s' ''w'') ''d'' = Some ?doc2"
    using cw did by (simp add: documents_of_def u update_conv')
  have g1: "doc_content ?doc2 = ''a''"
    using fl cont rtype w2 t by (simp add: apply_operation_def)
  have g2: "\<forall>r \<in> set (doc_pending_operations ?doc2).
                     r < length (objs w2) \<and> op_user_id (objs w2 ! r) = ''u''"
  proof
    have sub: "set (doc_pending_operations document1)
                 \<subseteq> insert ?k (set (doc_pending_operations document))"
      unfolding pd by (auto dest: in_set_dropD)
    fix r assume "r \<in> set (doc_pending_operations ?doc2)"
    then have "r \<in> set (doc_pending_operations document) \<or> r = ?k"
      using sub by auto
    then show "r < length (objs w2) \<and> op_user_id (objs w2 ! r) = ''u''"
      using pend old usr lw1 w2 by auto
  qed
  have ops: "doc_operations ?doc2 = deque_append (doc_operations document) ?k"
    using fl t by simp
  have ne: "doc_operations document \<noteq> []" using len by auto
  have g3: "length (doc_operations ?doc2) = min (Suc (Suc n)) 1000"
    unfolding ops using len by (auto simp: deque_append_def Let_def)
  have retk: "?k < length (objs w2) \<and> op_type (objs w2 ! ?k) = RETAIN"
    using lw1 rtype w2 by simp
  have keep: "r < length (objs w2) \<and> op_type (objs w2 ! r) = RETAIN"
    if "r < length (objs (py s)) \<and> op_type (objs (py s) ! r) = RETAIN" for r
    using that old lw1 w2 by simp
  have g4: "\<forall>r \<in> set (tl (doc_operations ?doc2)).
                     r < length (objs w2) \<and> op_type (objs w2 ! r) = RETAIN"
  proof (cases "length (doc_operations document) < 1000")
    case True
    then have "tl (doc_operations ?doc2) = tl (doc_operations document) @ [?k]"
      unfolding ops using ne by (simp add: deque_append_short)
    then show ?thesis using tlr keep retk by auto
  next
    case False
    then have "length (doc_operations document) = 1000" using len by simp
    then have "doc_operations ?doc2 = tl (doc_operations document) @ [?k]"
      unfolding ops using ne by (simp add: deque_append_def Let_def drop_Suc)
    then have "set (tl (doc_operations ?doc2)) \<subseteq> set (tl (doc_operations document)) \<union> {?k}"
      by (metis Un_insert_right list.set(1) list.set(2) set_append sup_bot.right_neutral
            list.set_sel(2) subsetI tl_Nil)
    then show ?thesis using tlr keep retk by blast
  qed
  have g5: "\<forall>r \<in> set (doc_operations ?doc2).
                     r < length (objs w2) \<and> op_type (objs w2 ! r) = RETAIN"
    if "1000 \<le> Suc n"
  proof (cases "1000 \<le> n")
    case True
    then have "\<forall>r \<in> set (doc_operations document).
                     r < length (objs (py s)) \<and> op_type (objs (py s) ! r) = RETAIN"
      using allr by simp
    then show ?thesis
      unfolding ops using deque_append_set[of "doc_operations document" ?k] keep retk by blast
  next
    case False
    with that have "length (doc_operations document) = 1000" using len by simp
    then have "doc_operations ?doc2 = tl (doc_operations document) @ [?k]"
      unfolding ops using ne by (simp add: deque_append_def Let_def drop_Suc)
    then show ?thesis using tlr keep retk by auto
  qed
  have cn: "same_connections s ?s'" by (rule handle_operation_connections)
  have e: "enabled s (Receive 0 (Json ?data))" using c0 by simp
  have reach': "reachable ?s'"
    using reachable.step[OF reach e, of 0] st by (simp add: retain_round_def)
  show ?thesis
    unfolding st retained_def
    using reach' cn c0 cw cu m' g1 g2 g3 g4 g5 p
    by (simp add: same_connections_def)
qed

lemma retained_funpow: "retained n ((retain_round ^^ n) after_insert)"
  by (induction n) (simp_all add: retained_0 retained_step)

lemma replay_retains:
  assumes "\<forall>r \<in> set rs. op_type (os ! r) = RETAIN"
  shows "foldl (\<lambda>content r. apply_operation content (os ! r)) x rs = x"
  using assms by (induction rs arbitrary: x) (simp_all add: apply_operation_def)

text \<open>The document \<open>d\<close> after the insert of \<open>a\<close>.\<close>

theorem content_is_replayed_history_witness:
  "reachable after_insert
   \<and> (case map_of (documents_of after_insert ''w'') ''d'' of
         None \<Rightarrow> False
       | Some document \<Rightarrow>
           doc_version document = 1 \<and> doc_content document = ''a''
           \<and> replay (objs (py after_insert)) document = ''a'')"
proof -
  let ?D = "\<lparr>doc_document_id = ''d'', doc_content = ''a'', doc_version = 1,
      doc_operations = [0], doc_active_users = [], doc_pending_operations = [0],
      doc_last_modified = 0, doc_conflict_resolution_needed = False\<rparr>"
  have m: "map_of (documents_of after_insert ''w'') ''d'' = Some ?D"
    by code_simp
  have "doc_content ?D = replay (objs (py after_insert)) ?D"
    by (rule content_is_replayed_history[OF reachable_after_insert m]) simp
  then show ?thesis using reachable_after_insert m by simp
qed

text \<open>
  After 1001 operations the history, a deque of at most 1000 entries, has dropped the
  insert: the content is still \<open>a\<close>, and the 1000 retains that are left replay to the empty
  string.
\<close>

theorem content_is_replayed_history_counterexample:
  "reachable overflow_engine
   \<and> (case map_of (documents_of overflow_engine ''w'') ''d'' of
         None \<Rightarrow> False
       | Some document \<Rightarrow>
           doc_content document = ''a''
           \<and> replay (objs (py overflow_engine)) document = [])"
proof -
  have r: "retained 1000 overflow_engine"
    unfolding overflow_engine_def by (rule retained_funpow)
  then obtain document where m: "map_of (documents_of overflow_engine ''w'') ''d'' = Some document"
    and c: "doc_content document = ''a''"
    and a: "\<forall>r \<in> set (doc_operations document).
              op_type (objs (py overflow_engine) ! r) = RETAIN"
    by (auto simp: retained_def split: option.splits)
  have "replay (objs (py overflow_engine)) document = []"
    unfolding replay_def using a by (rule replay_retains)
  then show ?thesis using r m c by (simp add: retained_def)
qed

section \<open>What a broadcast sends\<close>












section \<open>Closing a connection\<close>







end
